theory Spec2Isabelle
  imports Main "HOL-Library.Word"
begin

unbundle bit_operations_syntax

section \<open>Data model\<close>

text \<open>
  Shallow embedding of \<^verbatim>\<open>src/malloc.c\<close> on an LP64 target: pointers and
  \<^verbatim>\<open>uint64_t\<close> are 64-bit words, \<^verbatim>\<open>unsigned int\<close> is a 32-bit word,
  \<^verbatim>\<open>sizeof(uint64_t) = sizeof(struct block_footer_t) = 8\<close> and
  \<^verbatim>\<open>sizeof(struct block_header_t) = 24\<close> (size, next, prev).  Pointer arithmetic
  and pointer comparison are unsigned 64-bit arithmetic.  \<^verbatim>\<open>NULL\<close> is \<open>0\<close> and
  the \<^verbatim>\<open>-1\<close> sentinel of \<^verbatim>\<open>heap\<close>/\<^verbatim>\<open>heap_end\<close>/\<^verbatim>\<open>sbrk\<close> is the word \<open>- 1\<close>.

  Memory is a store from byte addresses to the 8-byte word kept there; every access of
  the program is an 8-byte access (a size word or a link pointer).  The field offsets
  of \<^verbatim>\<open>struct block_header_t\<close> are \<open>size\<close> at 0, \<open>next\<close> at 8 and \<open>prev\<close> at 16.

  The global variables of the C file are the first five fields of the state.  The last
  three fields are the environment: the program break kept by the operating system,
  and the answers it gives to the successive extension requests (\<open>sbrk_ok s k\<close> is the
  answer to request number \<open>k\<close>).
\<close>

type_synonym addr = "64 word"

record state =
  heap :: addr
  heap_end :: addr
  last_blk :: addr
  first :: addr
  free_list :: addr
  mem :: "addr \<Rightarrow> 64 word"
  brk :: addr
  sbrk_ok :: "nat \<Rightarrow> bool"
  sbrk_calls :: nat

definition INIIAL_HEAP_SIZE :: "64 word" where
  "INIIAL_HEAP_SIZE = 1024"

definition ALLOC_SIZE :: "64 word" where
  "ALLOC_SIZE = 1024"

definition MINIMUM_ALLOC_SIZE :: "64 word" where
  "MINIMUM_ALLOC_SIZE = 16"

definition MINIMUM_BLOCK_SIZE :: "64 word" where
  "MINIMUM_BLOCK_SIZE = 8 + MINIMUM_ALLOC_SIZE + 8"

section \<open>Block encoding\<close>

definition store :: "addr \<Rightarrow> 64 word \<Rightarrow> state \<Rightarrow> state" where
  "store a v s = s\<lparr>mem := (mem s)(a := v)\<rparr>"

definition is_free :: "state \<Rightarrow> addr \<Rightarrow> bool" where
  "is_free s block = (mem s block AND 1 = 1)"

definition set_free :: "addr \<Rightarrow> state \<Rightarrow> state" where
  "set_free block s = store block (mem s block OR 1) s"

definition set_used :: "addr \<Rightarrow> state \<Rightarrow> state" where
  "set_used block s = store block (mem s block AND (- 2)) s"

definition get_size :: "state \<Rightarrow> addr \<Rightarrow> 64 word" where
  "get_size s block = mem s block AND (- 2)"

definition get_footer_from_header :: "state \<Rightarrow> addr \<Rightarrow> addr" where
  "get_footer_from_header s header = header + get_size s header + 8"

definition get_header_from_footer :: "state \<Rightarrow> addr \<Rightarrow> addr" where
  "get_header_from_footer s footer = footer - get_size s footer - 8"

definition head_addr :: "addr \<Rightarrow> addr" where
  "head_addr data = data - 8"

definition data_addr :: "addr \<Rightarrow> addr" where
  "data_addr m_block = m_block + 8"

definition next_available_block :: "state \<Rightarrow> addr" where
  "next_available_block s =
     (if last_blk s = 0 then heap s
      else last_blk s + 8 + get_size s (last_blk s) + 8)"

text \<open>\<^verbatim>\<open>round\<close> returns \<^verbatim>\<open>unsigned int\<close>: the 64-bit value is cut to 32 bits and
  widened again when it is assigned back to the 64-bit \<^verbatim>\<open>size\<close>.\<close>

definition round_sz :: "64 word \<Rightarrow> 64 word" where
  "round_sz sz = ucast (ucast ((sz + 7) AND (- 8)) :: 32 word)"

section \<open>Heap bootstrap and growth\<close>

text \<open>The operating system's break-pointer call.  An increment of 0 reads the break;
  any other increment is an extension request, granted or refused as \<open>sbrk_ok\<close> says;
  a granted request returns the old break and moves it, a refused one returns \<open>- 1\<close>.\<close>

definition sbrk :: "64 word \<Rightarrow> state \<Rightarrow> addr \<times> state" where
  "sbrk incr s =
     (if incr = 0 then (brk s, s)
      else if sbrk_ok s (sbrk_calls s)
        then (brk s, s\<lparr>brk := brk s + incr, sbrk_calls := Suc (sbrk_calls s)\<rparr>)
        else (- 1, s\<lparr>sbrk_calls := Suc (sbrk_calls s)\<rparr>))"

definition Sbrk :: "state \<Rightarrow> 8 word \<times> state" where
  "Sbrk s =
     (case sbrk ALLOC_SIZE s of (returned_addr, s1) \<Rightarrow>
        if returned_addr \<noteq> - 1 then (0, s1\<lparr>heap_end := heap_end s1 + ALLOC_SIZE\<rparr>)
        else (1, s1))"

definition init :: "state \<Rightarrow> state" where
  "init s =
     (if heap s = - 1 then
        (case sbrk 0 s of (h, s1) \<Rightarrow>
           (case sbrk INIIAL_HEAP_SIZE (s1\<lparr>heap := h\<rparr>) of (returned_addr, s2) \<Rightarrow>
              if returned_addr = - 1 then s2\<lparr>heap := - 1, heap_end := - 1\<rparr>
              else s2\<lparr>heap_end := heap s2 + INIIAL_HEAP_SIZE\<rparr>))
      else s)"

section \<open>Free list\<close>

definition add_to_free_list :: "addr \<Rightarrow> state \<Rightarrow> state" where
  "add_to_free_list block s =
     (let s1 = store (block + 8) (free_list s) s;
          s2 = store (block + 16) 0 s1;
          s3 = (if free_list s2 \<noteq> 0 then store (free_list s2 + 16) block s2 else s2);
          s4 = s3\<lparr>free_list := block\<rparr>;
          s5 = set_free block s4
      in set_free (get_footer_from_header s5 block) s5)"

definition remove_from_free_list :: "addr \<Rightarrow> state \<Rightarrow> state" where
  "remove_from_free_list block s =
     (let s1 = (if mem s (block + 8) \<noteq> 0
                then store (mem s (block + 8) + 16) (mem s (block + 16)) s else s);
          s2 = (if mem s1 (block + 16) \<noteq> 0
                then store (mem s1 (block + 16) + 8) (mem s1 (block + 8)) s1 else s1);
          s3 = (if block = free_list s2 then s2\<lparr>free_list := mem s2 (block + 8)\<rparr> else s2);
          s4 = set_used block s3
      in set_used (get_footer_from_header s4 block) s4)"

section \<open>Allocation\<close>

text \<open>The body of the search loop at a block that is large enough
  (\<^verbatim>\<open>malloc.c\<close>, lines 152 to 164).\<close>

definition Malloc_hit :: "addr \<Rightarrow> 64 word \<Rightarrow> state \<Rightarrow> addr \<times> state" where
  "Malloc_hit m_block sz s =
     (let total_size = get_size s m_block + 24 + 8;
          size_needed = sz + 8 + 8;
          s1 = (if total_size - size_needed \<ge> MINIMUM_BLOCK_SIZE then
                  (let new_block = m_block + 8 + sz + 8;
                       sa = store new_block (total_size - size_needed - 8 - 8) s;
                       sb = add_to_free_list new_block sa;
                       sc = set_free new_block sb
                   in set_free (get_footer_from_header sc new_block) sc)
                else s);
          s2 = store m_block sz s1;
          s3 = set_used m_block s2;
          s4 = set_used (get_footer_from_header s3 m_block) s3
      in (data_addr m_block, s4))"

text \<open>The search loop over the free list (lines 149 to 167).  The result \<open>None\<close> is a
  loop that never ends, \<open>Some None\<close> a loop that ran off the end of the list, and
  \<open>Some (Some r)\<close> the \<^verbatim>\<open>return\<close> from inside the loop.\<close>

partial_function (option) Malloc_search ::
    "64 word \<Rightarrow> addr \<Rightarrow> state \<Rightarrow> (addr \<times> state) option option" where
  "Malloc_search sz m_block s =
     (if m_block \<noteq> 0 then
        (if get_size s m_block \<ge> sz then Some (Some (Malloc_hit m_block sz s))
         else Malloc_search sz (mem s (m_block + 8)) s)
      else Some None)"

text \<open>The growth loop (lines 169 to 173): \<open>Some (False, s)\<close> is the \<^verbatim>\<open>return NULL\<close>
  after a refused extension, \<open>Some (True, s)\<close> the normal exit of the loop.\<close>

partial_function (option) Malloc_grow ::
    "addr \<Rightarrow> 64 word \<Rightarrow> state \<Rightarrow> (bool \<times> state) option" where
  "Malloc_grow next_block sz s =
     (if next_block + 8 + sz + 8 > heap_end s then
        (case Sbrk s of (r, s1) \<Rightarrow>
           if r = 1 then Some (False, s1) else Malloc_grow next_block sz s1)
      else Some (True, s))"

text \<open>Carving a fresh block at the heap tail (lines 174 to 181).\<close>

definition Malloc_carve :: "addr \<Rightarrow> 64 word \<Rightarrow> state \<Rightarrow> addr \<times> state" where
  "Malloc_carve next_block sz s =
     (let s1 = store next_block sz s;
          s2 = set_used next_block s1;
          s3 = set_used (get_footer_from_header s2 next_block) s2;
          s4 = (if first s3 = 0 then s3\<lparr>first := next_block\<rparr> else s3);
          s5 = s4\<lparr>last_blk := next_block\<rparr>
      in (data_addr next_block, s5))"

text \<open>The size after clamping and rounding (lines 143 to 146).\<close>

definition Malloc_size :: "64 word \<Rightarrow> 64 word" where
  "Malloc_size sz = round_sz (if sz < MINIMUM_ALLOC_SIZE then MINIMUM_ALLOC_SIZE else sz)"

definition Malloc :: "64 word \<Rightarrow> state \<Rightarrow> (addr \<times> state) option" where
  "Malloc size0 s0 =
     (let s = (if heap s0 = - 1 then init s0 else s0) in
      if heap s = - 1 \<or> heap_end s = - 1 then Some (0, s)
      else
        (let sz = Malloc_size size0 in
         case Malloc_search sz (free_list s) s of
           None \<Rightarrow> None
         | Some (Some r) \<Rightarrow> Some r
         | Some None \<Rightarrow>
             (let next_block = next_available_block s in
              case Malloc_grow next_block sz s of
                None \<Rightarrow> None
              | Some (False, s1) \<Rightarrow> Some (0, s1)
              | Some (True, s1) \<Rightarrow> Some (Malloc_carve next_block sz s1))))"

section \<open>Deallocation\<close>

text \<open>The four branches of \<^verbatim>\<open>Free\<close> (lines 201 to 212, 214 to 224, 226 to 236 and
  238 to 240).\<close>

definition Free_both :: "addr \<Rightarrow> addr \<Rightarrow> addr \<Rightarrow> state \<Rightarrow> state" where
  "Free_both m_block prev_block next_block s =
     (let s1 = remove_from_free_list next_block s;
          s2 = remove_from_free_list prev_block s1;
          s3 = (if next_block = last_blk s2 then s2\<lparr>last_blk := prev_block\<rparr> else s2);
          total_size = get_size s3 prev_block + get_size s3 m_block + get_size s3 next_block
                         + 3 * 8 + 3 * 8;
          usable_size = total_size - 8 - 8;
          s4 = store prev_block usable_size s3;
          s5 = set_free prev_block s4;
          s6 = store (get_footer_from_header s5 prev_block) usable_size s5;
          s7 = set_free (get_footer_from_header s6 prev_block) s6
      in add_to_free_list prev_block s7)"

definition Free_left :: "addr \<Rightarrow> addr \<Rightarrow> state \<Rightarrow> state" where
  "Free_left m_block prev_block s =
     (let s1 = remove_from_free_list prev_block s;
          s2 = (if m_block = last_blk s1 then s1\<lparr>last_blk := prev_block\<rparr> else s1);
          total_size = get_size s2 prev_block + get_size s2 m_block + 2 * 8 + 2 * 8;
          usable_size = total_size - 8 - 8;
          s3 = store prev_block usable_size s2;
          s4 = set_free prev_block s3;
          s5 = store (get_footer_from_header s4 prev_block) usable_size s4;
          s6 = set_free (get_footer_from_header s5 prev_block) s5
      in add_to_free_list prev_block s6)"

definition Free_right :: "addr \<Rightarrow> addr \<Rightarrow> state \<Rightarrow> state" where
  "Free_right m_block next_block s =
     (let s1 = remove_from_free_list next_block s;
          s2 = (if next_block = last_blk s1 then s1\<lparr>last_blk := m_block\<rparr> else s1);
          total_size = get_size s2 m_block + get_size s2 next_block + 2 * 8 + 2 * 8;
          usable_size = total_size - 8 - 8;
          s3 = store m_block usable_size s2;
          s4 = set_free m_block s3;
          s5 = store (get_footer_from_header s4 m_block) usable_size s4;
          s6 = set_free (get_footer_from_header s5 m_block) s5
      in add_to_free_list m_block s6)"

definition Free_alone :: "addr \<Rightarrow> state \<Rightarrow> state" where
  "Free_alone m_block s =
     (let s1 = set_free m_block s;
          s2 = set_free (get_footer_from_header s1 m_block) s1
      in add_to_free_list m_block s2)"

definition Free :: "addr \<Rightarrow> state \<Rightarrow> state" where
  "Free p s =
     (if p = 0 then s
      else
        (let m_block = head_addr p;
             prev_block = (if m_block \<noteq> first s
                           then get_header_from_footer s (m_block - 8) else 0);
             next_block = (if m_block \<noteq> last_blk s
                           then m_block + 8 + get_size s m_block + 8 else 0)
         in if next_block \<noteq> 0 \<and> is_free s next_block
               \<and> prev_block \<noteq> 0 \<and> is_free s prev_block
            then Free_both m_block prev_block next_block s
            else if prev_block \<noteq> 0 \<and> is_free s prev_block
            then Free_left m_block prev_block s
            else if next_block \<noteq> 0 \<and> is_free s next_block
            then Free_right m_block next_block s
            else Free_alone m_block s))"

section \<open>Running the allocator\<close>

text \<open>A process that has not called the allocator yet: the globals as the C file
  initialises them, memory that reads as zero (as pages fresh from the operating system
  do), the break at \<open>b\<close>, and the given answers to extension requests.\<close>

definition fresh :: "addr \<Rightarrow> (nat \<Rightarrow> bool) \<Rightarrow> state" where
  "fresh b ok = \<lparr>heap = - 1, heap_end = - 1, last_blk = 0, first = 0, free_list = 0,
                 mem = (\<lambda>_. 0), brk = b, sbrk_ok = ok, sbrk_calls = 0\<rparr>"

named_theorems alloc_defs

declare INIIAL_HEAP_SIZE_def [alloc_defs] ALLOC_SIZE_def [alloc_defs]
  MINIMUM_ALLOC_SIZE_def [alloc_defs] MINIMUM_BLOCK_SIZE_def [alloc_defs]
  store_def [alloc_defs] is_free_def [alloc_defs] set_free_def [alloc_defs]
  set_used_def [alloc_defs] get_size_def [alloc_defs]
  get_footer_from_header_def [alloc_defs] get_header_from_footer_def [alloc_defs]
  head_addr_def [alloc_defs] data_addr_def [alloc_defs]
  next_available_block_def [alloc_defs] round_sz_def [alloc_defs]
  sbrk_def [alloc_defs] Sbrk_def [alloc_defs] init_def [alloc_defs]
  add_to_free_list_def [alloc_defs] remove_from_free_list_def [alloc_defs]
  Malloc_hit_def [alloc_defs] Malloc_carve_def [alloc_defs] Malloc_size_def [alloc_defs]
  Malloc_def [alloc_defs] Free_both_def [alloc_defs] Free_left_def [alloc_defs]
  Free_right_def [alloc_defs] Free_alone_def [alloc_defs] Free_def [alloc_defs]
  fresh_def [alloc_defs]

section \<open>Callers\<close>

text \<open>Two operating systems: one that grants every extension request, and one that
  refuses the first request and grants every later one.\<close>

definition always_grant :: "nat \<Rightarrow> bool" where
  "always_grant k = True"

definition refuse_first :: "nat \<Rightarrow> bool" where
  "refuse_first k = (k \<noteq> 0)"

text \<open>A caller is a sequence of calls of the two public operations; \<open>Release k\<close>
  releases the pointer that the \<open>k\<close>-th allocation of the run returned.  A run
  collects the returned pointers; it is \<open>None\<close> when a call does not return.\<close>

datatype call = Allocate "64 word" | Release nat

fun run :: "call list \<Rightarrow> addr list \<Rightarrow> state \<Rightarrow> (addr list \<times> state) option" where
  "run [] ps s = Some (ps, s)"
| "run (Allocate n # cs) ps s =
     (case Malloc n s of None \<Rightarrow> None | Some (p, s') \<Rightarrow> run cs (ps @ [p]) s')"
| "run (Release k # cs) ps s =
     run cs ps (Free (if k < length ps then ps ! k else 0) s)"

text \<open>The states of a process whose heap is the one increment at 4096 that
  \<open>always_grant\<close> gave at bootstrap, with a first block carved at 4096: they differ in
  \<open>last\<close>, the free-list head and the memory.\<close>

definition one_page :: "addr \<Rightarrow> addr \<Rightarrow> (addr \<Rightarrow> 64 word) \<Rightarrow> state" where
  "one_page l f m = \<lparr>heap = 4096, heap_end = 5120, last_blk = l, first = 4096,
     free_list = f, mem = m, brk = 5120, sbrk_ok = always_grant, sbrk_calls = Suc 0\<rparr>"

section \<open>Well-formed free lists\<close>

text \<open>The vocabulary for a heap whose free list is in order.  \<open>flist_seg m h xs t\<close>:
  following the \<open>next\<close> links from \<open>h\<close> visits the non-null blocks \<open>xs\<close> and ends at \<open>t\<close>.
  \<open>prev_links m p xs\<close>: the \<open>prev\<close> link of each block of \<open>xs\<close> is its predecessor, and
  that of the first one is \<open>p\<close>.  \<open>free_blocks s xs\<close>: the free list of \<open>s\<close>, walked from
  its head, is exactly \<open>xs\<close>, and the \<open>prev\<close> links agree.  A block at \<open>b\<close> occupies the
  addresses from \<open>b\<close> up to \<open>blk_end s b\<close>; it is sound when it is not null, has at least
  the minimum payload and does not wrap around the address space.  \<open>blocks_apart s xs\<close>:
  the blocks of \<open>xs\<close> are sound and no two of them overlap.\<close>

fun flist_seg :: "(addr \<Rightarrow> 64 word) \<Rightarrow> addr \<Rightarrow> addr list \<Rightarrow> addr \<Rightarrow> bool" where
  "flist_seg m h [] t = (h = t)"
| "flist_seg m h (x # xs) t = (h = x \<and> x \<noteq> 0 \<and> flist_seg m (m (x + 8)) xs t)"

fun prev_links :: "(addr \<Rightarrow> 64 word) \<Rightarrow> addr \<Rightarrow> addr list \<Rightarrow> bool" where
  "prev_links m p [] = True"
| "prev_links m p (x # xs) = (m (x + 16) = p \<and> prev_links m x xs)"

definition free_blocks :: "state \<Rightarrow> addr list \<Rightarrow> bool" where
  "free_blocks s xs = (flist_seg (mem s) (free_list s) xs 0 \<and> prev_links (mem s) 0 xs)"

definition blk_end :: "state \<Rightarrow> addr \<Rightarrow> nat" where
  "blk_end s b = unat b + 8 + unat (get_size s b) + 8"

definition blk_ok :: "state \<Rightarrow> addr \<Rightarrow> bool" where
  "blk_ok s b = (b \<noteq> 0 \<and> 16 \<le> unat (get_size s b) \<and> blk_end s b < 2 ^ 64)"

definition disjoint_blks :: "state \<Rightarrow> addr \<Rightarrow> addr \<Rightarrow> bool" where
  "disjoint_blks s a b = (blk_end s a \<le> unat b \<or> blk_end s b \<le> unat a)"

definition blocks_apart :: "state \<Rightarrow> addr list \<Rightarrow> bool" where
  "blocks_apart s xs = ((\<forall>x\<in>set xs. blk_ok s x)
      \<and> (\<forall>x\<in>set xs. \<forall>y\<in>set xs. x \<noteq> y \<longrightarrow> disjoint_blks s x y))"

section \<open>Traces from a fresh process\<close>

text \<open>Single calls evaluated on explicit states; the break starts at 4096.  In the
  memory, a block at \<open>b\<close> of usable size \<open>n\<close> has its header at \<open>b\<close>, its payload at
  \<open>b + 8\<close> and its footer at \<open>b + 8 + n\<close>.\<close>

lemma trace_16_alloc:
  "Malloc 16
     (fresh 4096 always_grant)
   = Some (4104,
     one_page 4096 0
       ((\<lambda>_. 0)(4096 := 16, 4120 := 0)))"
  by (simp add: alloc_defs one_page_def Let_def Malloc_search.simps Malloc_grow.simps
      always_grant_def refuse_first_def cong: let_weak_cong)

lemma trace_16_release:
  "Free 4104
     (one_page 4096 0
       ((\<lambda>_. 0)(4096 := 16, 4120 := 0)))
   = one_page 4096 4096
       ((\<lambda>_. 0)(4104 := 0, 4112 := 0, 4096 := 17, 4120 := 1))"
  by (simp add: alloc_defs one_page_def Let_def Malloc_search.simps Malloc_grow.simps
      always_grant_def refuse_first_def cong: let_weak_cong)

lemma trace_16_realloc:
  "Malloc 16
     (one_page 4096 4096
       ((\<lambda>_. 0)(4104 := 0, 4112 := 0, 4096 := 17, 4120 := 1)))
   = Some (4104,
     one_page 4096 4096
       ((\<lambda>_. 0)(4104 := 0, 4112 := 0, 4096 := 16, 4120 := 0)))"
  by (simp add: alloc_defs one_page_def Let_def Malloc_search.simps Malloc_grow.simps
      always_grant_def refuse_first_def cong: let_weak_cong)

lemma trace_16_rerelease:
  "Free 4104
     (one_page 4096 4096
       ((\<lambda>_. 0)(4104 := 0, 4112 := 0, 4096 := 16, 4120 := 0)))
   = one_page 4096 4096
       ((\<lambda>_. 0)(4104 := 4096, 4112 := 4096, 4096 := 17, 4120 := 1))"
  by (simp add: alloc_defs one_page_def Let_def Malloc_search.simps Malloc_grow.simps
      always_grant_def refuse_first_def cong: let_weak_cong)

lemma trace_48_alloc:
  "Malloc 48
     (fresh 4096 always_grant)
   = Some (4104,
     one_page 4096 0
       ((\<lambda>_. 0)(4096 := 48, 4152 := 0)))"
  by (simp add: alloc_defs one_page_def Let_def Malloc_search.simps Malloc_grow.simps
      always_grant_def refuse_first_def cong: let_weak_cong)

lemma trace_48_release:
  "Free 4104
     (one_page 4096 0
       ((\<lambda>_. 0)(4096 := 48, 4152 := 0)))
   = one_page 4096 4096
       ((\<lambda>_. 0)(4104 := 0, 4112 := 0, 4096 := 49, 4152 := 1))"
  by (simp add: alloc_defs one_page_def Let_def Malloc_search.simps Malloc_grow.simps
      always_grant_def refuse_first_def cong: let_weak_cong)

lemma trace_48_split:
  "Malloc 16
     (one_page 4096 4096
       ((\<lambda>_. 0)(4104 := 0, 4112 := 0, 4096 := 49, 4152 := 1)))
   = Some (4104,
     one_page 4096 4128
       ((\<lambda>_. 0)(4104 := 0, 4152 := 1, 4136 := 4096, 4144 := 0, 4112 := 4128,
          4128 := 33, 4168 := 1, 4096 := 16, 4120 := 0)))"
  by (simp add: alloc_defs one_page_def Let_def Malloc_search.simps Malloc_grow.simps
      always_grant_def refuse_first_def cong: let_weak_cong)

lemma trace_32_alloc:
  "Malloc 32
     (fresh 4096 always_grant)
   = Some (4104,
     one_page 4096 0
       ((\<lambda>_. 0)(4096 := 32, 4136 := 0)))"
  by (simp add: alloc_defs one_page_def Let_def Malloc_search.simps Malloc_grow.simps
      always_grant_def refuse_first_def cong: let_weak_cong)

lemma trace_32_release:
  "Free 4104
     (one_page 4096 0
       ((\<lambda>_. 0)(4096 := 32, 4136 := 0)))
   = one_page 4096 4096
       ((\<lambda>_. 0)(4104 := 0, 4112 := 0, 4096 := 33, 4136 := 1))"
  by (simp add: alloc_defs one_page_def Let_def Malloc_search.simps Malloc_grow.simps
      always_grant_def refuse_first_def cong: let_weak_cong)

lemma trace_32_split:
  "Malloc 16
     (one_page 4096 4096
       ((\<lambda>_. 0)(4104 := 0, 4112 := 0, 4096 := 33, 4136 := 1)))
   = Some (4104,
     one_page 4096 4128
       ((\<lambda>_. 0)(4104 := 0, 4136 := 4096, 4144 := 0, 4112 := 4128, 4128 := 17,
          4152 := 1, 4096 := 16, 4120 := 0)))"
  by (simp add: alloc_defs one_page_def Let_def Malloc_search.simps Malloc_grow.simps
      always_grant_def refuse_first_def cong: let_weak_cong)

lemma trace_24_alloc:
  "Malloc 24
     (fresh 4096 always_grant)
   = Some (4104,
     one_page 4096 0
       ((\<lambda>_. 0)(4096 := 24, 4128 := 0)))"
  by (simp add: alloc_defs one_page_def Let_def Malloc_search.simps Malloc_grow.simps
      always_grant_def refuse_first_def cong: let_weak_cong)

lemma trace_24_release:
  "Free 4104
     (one_page 4096 0
       ((\<lambda>_. 0)(4096 := 24, 4128 := 0)))
   = one_page 4096 4096
       ((\<lambda>_. 0)(4104 := 0, 4112 := 0, 4096 := 25, 4128 := 1))"
  by (simp add: alloc_defs one_page_def Let_def Malloc_search.simps Malloc_grow.simps
      always_grant_def refuse_first_def cong: let_weak_cong)

lemma trace_24_reuse:
  "Malloc 16
     (one_page 4096 4096
       ((\<lambda>_. 0)(4104 := 0, 4112 := 0, 4096 := 25, 4128 := 1)))
   = Some (4104,
     one_page 4096 4096
       ((\<lambda>_. 0)(4104 := 0, 4112 := 0, 4128 := 1, 4096 := 16, 4120 := 0)))"
  by (simp add: alloc_defs one_page_def Let_def Malloc_search.simps Malloc_grow.simps
      always_grant_def refuse_first_def cong: let_weak_cong)

lemma trace_huge_alloc:
  "Malloc 4294967296
     (fresh 4096 always_grant)
   = Some (4104,
     one_page 4096 0
       ((\<lambda>_. 0)(4096 := 0, 4104 := 0)))"
  by (simp add: alloc_defs one_page_def Let_def Malloc_search.simps Malloc_grow.simps
      always_grant_def refuse_first_def cong: let_weak_cong)

lemma trace_pair_alloc:
  "Malloc 16
     (one_page 4096 0
       ((\<lambda>_. 0)(4096 := 16, 4120 := 0)))
   = Some (4136,
     one_page 4128 0
       ((\<lambda>_. 0)(4096 := 16, 4120 := 0, 4128 := 16, 4152 := 0)))"
  by (simp add: alloc_defs one_page_def Let_def Malloc_search.simps Malloc_grow.simps
      always_grant_def refuse_first_def cong: let_weak_cong)

lemma trace_pair_release_left:
  "Free 4104
     (one_page 4128 0
       ((\<lambda>_. 0)(4096 := 16, 4120 := 0, 4128 := 16, 4152 := 0)))
   = one_page 4128 4096
       ((\<lambda>_. 0)(4128 := 16, 4152 := 0, 4104 := 0, 4112 := 0, 4096 := 17, 4120 := 1))"
  by (simp add: alloc_defs one_page_def Let_def Malloc_search.simps Malloc_grow.simps
      always_grant_def refuse_first_def cong: let_weak_cong)

lemma trace_pair_release_right:
  "Free 4136
     (one_page 4128 4096
       ((\<lambda>_. 0)(4128 := 16, 4152 := 0, 4104 := 0, 4112 := 0, 4096 := 17, 4120 := 1)))
   = one_page 4128 4128
       ((\<lambda>_. 0)(4104 := 0, 4096 := 17, 4120 := 1, 4136 := 4096, 4144 := 0,
          4112 := 4128, 4128 := 17, 4152 := 1))"
  by (simp add: alloc_defs one_page_def Let_def Malloc_search.simps Malloc_grow.simps
      always_grant_def refuse_first_def cong: let_weak_cong)

lemma trace_triple_alloc:
  "Malloc 16
     (one_page 4128 0
       ((\<lambda>_. 0)(4096 := 16, 4120 := 0, 4128 := 16, 4152 := 0)))
   = Some (4168,
     one_page 4160 0
       ((\<lambda>_. 0)(4096 := 16, 4120 := 0, 4128 := 16, 4152 := 0, 4160 := 16, 4184 := 0)))"
  by (simp add: alloc_defs one_page_def Let_def Malloc_search.simps Malloc_grow.simps
      always_grant_def refuse_first_def cong: let_weak_cong)

lemma trace_triple_release_left:
  "Free 4104
     (one_page 4160 0
       ((\<lambda>_. 0)(4096 := 16, 4120 := 0, 4128 := 16, 4152 := 0, 4160 := 16, 4184 := 0)))
   = one_page 4160 4096
       ((\<lambda>_. 0)(4128 := 16, 4152 := 0, 4160 := 16, 4184 := 0, 4104 := 0, 4112 := 0,
          4096 := 17, 4120 := 1))"
  by (simp add: alloc_defs one_page_def Let_def Malloc_search.simps Malloc_grow.simps
      always_grant_def refuse_first_def cong: let_weak_cong)

lemma trace_triple_release_right:
  "Free 4168
     (one_page 4160 4096
       ((\<lambda>_. 0)(4128 := 16, 4152 := 0, 4160 := 16, 4184 := 0, 4104 := 0, 4112 := 0,
          4096 := 17, 4120 := 1)))
   = one_page 4160 4160
       ((\<lambda>_. 0)(4128 := 16, 4152 := 0, 4104 := 0, 4096 := 17, 4120 := 1,
          4168 := 4096, 4176 := 0, 4112 := 4160, 4160 := 17, 4184 := 1))"
  by (simp add: alloc_defs one_page_def Let_def Malloc_search.simps Malloc_grow.simps
      always_grant_def refuse_first_def cong: let_weak_cong)

lemma trace_triple_release_middle:
  "Free 4136
     (one_page 4160 4160
       ((\<lambda>_. 0)(4128 := 16, 4152 := 0, 4104 := 0, 4096 := 17, 4120 := 1,
          4168 := 4096, 4176 := 0, 4112 := 4160, 4160 := 17, 4184 := 1)))
   = one_page 4128 4128
       ((\<lambda>_. 0)(4152 := 0, 4104 := 0, 4096 := 17, 4120 := 1, 4168 := 4096, 4176 := 0,
          4160 := 16, 4136 := 4096, 4144 := 0, 4112 := 4128, 4128 := 49, 4184 := 49))"
  by (simp add: alloc_defs one_page_def Let_def Malloc_search.simps Malloc_grow.simps
      always_grant_def refuse_first_def cong: let_weak_cong)

lemma trace_quad_alloc:
  "Malloc 16
     (one_page 4160 0
       ((\<lambda>_. 0)(4096 := 16, 4120 := 0, 4128 := 16, 4152 := 0, 4160 := 16, 4184 := 0)))
   = Some (4200,
     one_page 4192 0
       ((\<lambda>_. 0)(4096 := 16, 4120 := 0, 4128 := 16, 4152 := 0, 4160 := 16, 4184 := 0,
          4192 := 16, 4216 := 0)))"
  by (simp add: alloc_defs one_page_def Let_def Malloc_search.simps Malloc_grow.simps
      always_grant_def refuse_first_def cong: let_weak_cong)

lemma trace_quad_release_second:
  "Free 4136
     (one_page 4192 0
       ((\<lambda>_. 0)(4096 := 16, 4120 := 0, 4128 := 16, 4152 := 0, 4160 := 16, 4184 := 0,
          4192 := 16, 4216 := 0)))
   = one_page 4192 4128
       ((\<lambda>_. 0)(4096 := 16, 4120 := 0, 4160 := 16, 4184 := 0, 4192 := 16, 4216 := 0,
          4136 := 0, 4144 := 0, 4128 := 17, 4152 := 1))"
  by (simp add: alloc_defs one_page_def Let_def Malloc_search.simps Malloc_grow.simps
      always_grant_def refuse_first_def cong: let_weak_cong)

lemma trace_quad_release_first:
  "Free 4104
     (one_page 4192 4128
       ((\<lambda>_. 0)(4096 := 16, 4120 := 0, 4160 := 16, 4184 := 0, 4192 := 16, 4216 := 0,
          4136 := 0, 4144 := 0, 4128 := 17, 4152 := 1)))
   = one_page 4192 4096
       ((\<lambda>_. 0)(4120 := 0, 4160 := 16, 4184 := 0, 4192 := 16, 4216 := 0, 4136 := 0,
          4144 := 0, 4128 := 16, 4104 := 0, 4112 := 0, 4096 := 49, 4152 := 49))"
  by (simp add: alloc_defs one_page_def Let_def Malloc_search.simps Malloc_grow.simps
      always_grant_def refuse_first_def cong: let_weak_cong)

lemma trace_quad_release_fourth:
  "Free 4200
     (one_page 4192 4096
       ((\<lambda>_. 0)(4120 := 0, 4160 := 16, 4184 := 0, 4192 := 16, 4216 := 0, 4136 := 0,
          4144 := 0, 4128 := 16, 4104 := 0, 4112 := 0, 4096 := 49, 4152 := 49)))
   = one_page 4192 4192
       ((\<lambda>_. 0)(4120 := 0, 4160 := 16, 4184 := 0, 4136 := 0, 4144 := 0, 4128 := 16,
          4104 := 0, 4096 := 49, 4152 := 49, 4200 := 4096, 4208 := 0, 4112 := 4192,
          4192 := 17, 4216 := 1))"
  by (simp add: alloc_defs one_page_def Let_def Malloc_search.simps Malloc_grow.simps
      always_grant_def refuse_first_def cong: let_weak_cong)

lemma trace_refused:
  "Malloc 16 (fresh 4096 refuse_first)
   = Some (0,
     \<lparr>heap = - 1, heap_end = - 1, last_blk = 0, first = 0, free_list = 0,
        mem = (\<lambda>_. 0), brk = 4096, sbrk_ok = refuse_first, sbrk_calls = Suc 0\<rparr>)"
  by (simp add: alloc_defs one_page_def Let_def Malloc_search.simps Malloc_grow.simps
      always_grant_def refuse_first_def cong: let_weak_cong)

lemma trace_refused_retry:
  "Malloc 16
     (\<lparr>heap = - 1, heap_end = - 1, last_blk = 0, first = 0, free_list = 0,
        mem = (\<lambda>_. 0), brk = 4096, sbrk_ok = refuse_first, sbrk_calls = Suc 0\<rparr>)
   = Some (4104,
     \<lparr>heap = 4096, heap_end = 5120, last_blk = 4096, first = 4096, free_list = 0,
        mem = (\<lambda>_. 0)(4096 := 16, 4120 := 0), brk = 5120, sbrk_ok = refuse_first,
        sbrk_calls = Suc (Suc 0)\<rparr>)"
  by (simp add: alloc_defs one_page_def Let_def Malloc_search.simps Malloc_grow.simps
      always_grant_def refuse_first_def cong: let_weak_cong)

section \<open>A search that never ends\<close>

lemma Malloc_search_cycle_aux:
  assumes "Malloc_search sz m s = Some y"
  shows "\<not> (m \<noteq> 0 \<and> mem s (m + 8) = m \<and> \<not> sz \<le> get_size s m)"
proof (rule Malloc_search.raw_induct
    [where P = "\<lambda>sz m s y. \<not> (m \<noteq> 0 \<and> mem s (m + 8) = m \<and> \<not> sz \<le> get_size s m)",
     OF _ assms])
  fix f :: "64 word \<Rightarrow> addr \<Rightarrow> state \<Rightarrow> (addr \<times> state) option option"
  fix sz m s y
  assume IH: "\<And>sz m s y. f sz m s = Some y \<Longrightarrow>
      \<not> (m \<noteq> 0 \<and> mem s (m + 8) = m \<and> \<not> sz \<le> get_size s m)"
  assume step: "(if m \<noteq> 0 then if sz \<le> get_size s m then Some (Some (Malloc_hit m sz s))
       else f sz (mem s (m + 8)) s else Some None) = Some y"
  show "\<not> (m \<noteq> 0 \<and> mem s (m + 8) = m \<and> \<not> sz \<le> get_size s m)"
  proof
    assume c: "m \<noteq> 0 \<and> mem s (m + 8) = m \<and> \<not> sz \<le> get_size s m"
    with step have "f sz m s = Some y" by simp
    from IH [OF this] c show False by blast
  qed
qed

text \<open>A free-list entry that is too small and whose \<open>next\<close> link points to itself
  keeps the search loop running for ever.\<close>

lemma Malloc_search_cycle:
  assumes "b \<noteq> 0" and "mem s (b + 8) = b" and "\<not> sz \<le> get_size s b"
  shows "Malloc_search sz b s = None"
proof (cases "Malloc_search sz b s")
  case None
  then show ?thesis .
next
  case (Some y)
  from Malloc_search_cycle_aux [OF this] assms show ?thesis by simp
qed

lemma trace_24_hangs:
  "Malloc 24
     (one_page 4096 4096
       ((\<lambda>_. 0)(4104 := 4096, 4112 := 4096, 4096 := 17, 4120 := 1)))
   = None"
proof -
  have "Malloc_search 24 4096
     (one_page 4096 4096
       ((\<lambda>_. 0)(4104 := 4096, 4112 := 4096, 4096 := 17, 4120 := 1))) = None"
    by (rule Malloc_search_cycle) (simp_all add: one_page_def get_size_def)
  then show ?thesis
    by (simp add: Malloc_def Malloc_size_def round_sz_def MINIMUM_ALLOC_SIZE_def one_page_def)
qed

section \<open>Release of a null pointer\<close>

text \<open>C8: \<^verbatim>\<open>Free\<close> applied to the null pointer returns the state it was given: heap
  bounds, \<open>first\<close>, \<open>last\<close>, the free-list head and the whole memory (hence every block's
  metadata) are unchanged.\<close>

theorem Free_null_noop: "Free 0 s = s"
  by (simp add: Free_def)

section \<open>Splitting\<close>

text \<open>C1, at the input where the code departs from it.  A block of usable size 48 is
  allocated at 4096 and released: it spans 4096 to 4160 and is the only free block.
  Allocating 16 bytes splits it.  The remainder is carved at 4128, right after the
  shrunk block, and becomes the free-list head, but its usable size is 32 = 48 - 16, not
  48 - 16 - 16 = 16: the header/footer overhead is not taken off.  Its footer is at 4168,
  beyond the end (4160) of the block that was split, and since \<open>last\<close> still is the
  shrunk block, the next address to carve is 4128, the remainder itself.\<close>

theorem split_remainder_too_large:
  "(\<exists>s. run [Allocate 48, Release 0] [] (fresh 4096 always_grant) = Some ([4104], s)
        \<and> free_list s = 4096 \<and> get_size s 4096 = 48
        \<and> get_footer_from_header s 4096 + 8 = 4160)
   \<and> (\<exists>s. run [Allocate 48, Release 0, Allocate 16] [] (fresh 4096 always_grant)
          = Some ([4104, 4104], s)
        \<and> get_size s 4096 = 16
        \<and> free_list s = 4128 \<and> is_free s 4128
        \<and> get_size s 4128 = 32
        \<and> get_footer_from_header s 4128 = 4168
        \<and> last_blk s = 4096 \<and> next_available_block s = 4128)"
  by (simp add: trace_48_alloc trace_48_release trace_48_split)
     (simp add: one_page_def is_free_def get_size_def get_footer_from_header_def
        next_available_block_def)

text \<open>C2, at the inputs where the code departs from it.  First run: the free block
  has usable size 32, so its framed size is 48 and it ends at 4144; the request of 16
  needs a framed size of 32; the leftover is 16, less than the minimum block size 32.
  The code splits all the same: a free block is created at 4128 and heads the free
  list; its header gives it the usable size 16 and so puts its footer at 4152, beyond
  the 16 bytes from 4128 to 4144 that are left over.  Second run: the free block has
  usable size 24 and the leftover is 8; there is no split, but the header of the block
  is shrunk from 24 to 16.\<close>

theorem split_below_minimum:
  "(\<exists>s. run [Allocate 32, Release 0] [] (fresh 4096 always_grant) = Some ([4104], s)
        \<and> free_list s = 4096 \<and> get_size s 4096 = 32
        \<and> get_footer_from_header s 4096 + 8 = 4144)
   \<and> (\<exists>s. run [Allocate 32, Release 0, Allocate 16] [] (fresh 4096 always_grant)
          = Some ([4104, 4104], s)
        \<and> free_list s = 4128 \<and> is_free s 4128 \<and> get_size s 4128 = 16
        \<and> get_footer_from_header s 4128 = 4152)
   \<and> (\<exists>s. run [Allocate 24, Release 0] [] (fresh 4096 always_grant) = Some ([4104], s)
        \<and> free_list s = 4096 \<and> get_size s 4096 = 24)
   \<and> (\<exists>s. run [Allocate 24, Release 0, Allocate 16] [] (fresh 4096 always_grant)
          = Some ([4104, 4104], s)
        \<and> free_list s = 4096 \<and> get_size s 4096 = 16)"
  by (simp add: trace_32_alloc trace_32_release trace_32_split
        trace_24_alloc trace_24_release trace_24_reuse)
     (simp add: one_page_def is_free_def get_size_def get_footer_from_header_def)

section \<open>The free list after an allocation\<close>

text \<open>C3, at the input where the code departs from it.  A block is allocated, released
  and allocated again.  The second allocation is served from the free list and returns
  the block at 4096 (payload 4104) marked used, but the block is still the head of the
  free list.\<close>

theorem allocated_block_stays_linked:
  "\<exists>s. run [Allocate 16, Release 0, Allocate 16] [] (fresh 4096 always_grant)
         = Some ([4104, 4104], s)
       \<and> free_list s = head_addr 4104 \<and> \<not> is_free s (head_addr 4104)"
  by (simp add: trace_16_alloc trace_16_release trace_16_realloc)
     (simp add: one_page_def is_free_def head_addr_def)

section \<open>Sizes\<close>

text \<open>C4, at the input where the code departs from it.  A request of \<open>2 ^ 32\<close> bytes
  succeeds and returns the payload address 4104, but the block behind it has usable
  size 0: the rounded size went through a 32-bit result.\<close>

theorem huge_request_truncated:
  "\<exists>s. Malloc 4294967296 (fresh 4096 always_grant) = Some (4104, s)
       \<and> get_size s (head_addr 4104) = 0"
  by (simp add: trace_huge_alloc) (simp add: one_page_def get_size_def head_addr_def)

section \<open>Coalescing on a heap in order\<close>

subsection \<open>Addresses inside blocks\<close>

lemma blk_ok_offsets:
  assumes "blk_ok s b"
  shows "unat (b + 8) = unat b + 8" and "unat (b + 16) = unat b + 16"
    and "unat (b + get_size s b + 8) = unat b + unat (get_size s b) + 8"
    and "unat (b + get_size s b + 16) = unat b + unat (get_size s b) + 16"
proof -
  from assms have bnd: "unat b + 8 + unat (get_size s b) + 8 < 2 ^ 64"
    and sz: "16 \<le> unat (get_size s b)"
    by (simp_all add: blk_ok_def blk_end_def)
  have "unat b + unat (8 :: 64 word) < 2 ^ LENGTH(64)" using bnd by simp
  then show 1: "unat (b + 8) = unat b + 8" by (simp add: unat_add_lem [THEN iffD1])
  have "unat b + unat (16 :: 64 word) < 2 ^ LENGTH(64)" using bnd sz by simp
  then show "unat (b + 16) = unat b + 16" by (simp add: unat_add_lem [THEN iffD1])
  have "unat b + unat (get_size s b) < 2 ^ LENGTH(64)" using bnd by simp
  then have 2: "unat (b + get_size s b) = unat b + unat (get_size s b)"
    by (simp add: unat_add_lem [THEN iffD1])
  have "unat (b + get_size s b) + unat (8 :: 64 word) < 2 ^ LENGTH(64)" using bnd 2 by simp
  then have "unat (b + get_size s b + 8) = unat (b + get_size s b) + 8"
    by (simp add: unat_add_lem [THEN iffD1])
  with 2 show "unat (b + get_size s b + 8) = unat b + unat (get_size s b) + 8" by simp
  have "unat (b + get_size s b) + unat (16 :: 64 word) < 2 ^ LENGTH(64)" using bnd 2 by simp
  then have "unat (b + get_size s b + 16) = unat (b + get_size s b) + 16"
    by (simp add: unat_add_lem [THEN iffD1])
  with 2 show "unat (b + get_size s b + 16) = unat b + unat (get_size s b) + 16" by simp
qed

lemma apart_cells:
  assumes "blocks_apart s xs" and "x \<in> set xs" and "y \<in> set xs"
  shows "x + 8 \<noteq> y + 16" and "x + 8 \<noteq> y" and "x + 16 \<noteq> y"
    and "x + get_size s x + 8 \<noteq> y" and "x + get_size s x + 8 \<noteq> y + 8"
    and "x + get_size s x + 8 \<noteq> y + 16"
proof -
  from assms have ox: "blk_ok s x" and oy: "blk_ok s y"
    and d: "x \<noteq> y \<Longrightarrow> disjoint_blks s x y"
    by (auto simp: blocks_apart_def)
  note X = blk_ok_offsets [OF ox] and Y = blk_ok_offsets [OF oy]
  from ox oy have sx: "16 \<le> unat (get_size s x)" and sy: "16 \<le> unat (get_size s y)"
    by (simp_all add: blk_ok_def)
  have key: "x = y \<or> unat x + 8 + unat (get_size s x) + 8 \<le> unat y
      \<or> unat y + 8 + unat (get_size s y) + 8 \<le> unat x"
    using d by (auto simp: disjoint_blks_def blk_end_def)
  have "unat (x + 8) \<noteq> unat (y + 16)" using key sx sy X Y by auto
  then show "x + 8 \<noteq> y + 16" by metis
  have "unat (x + 8) \<noteq> unat y" using key sx sy X Y by auto
  then show "x + 8 \<noteq> y" by metis
  have "unat (x + 16) \<noteq> unat y" using key sx sy X Y by auto
  then show "x + 16 \<noteq> y" by metis
  have "unat (x + get_size s x + 8) \<noteq> unat y" using key sx sy X Y by auto
  then show "x + get_size s x + 8 \<noteq> y" by metis
  have "unat (x + get_size s x + 8) \<noteq> unat (y + 8)" using key sx sy X Y by auto
  then show "x + get_size s x + 8 \<noteq> y + 8" by metis
  have "unat (x + get_size s x + 8) \<noteq> unat (y + 16)" using key sx sy X Y by auto
  then show "x + get_size s x + 8 \<noteq> y + 16" by metis
qed

lemma or1_and_m2: "((x :: 64 word) OR 1) AND (- 2) = x AND (- 2)"
  by (rule bit_word_eqI) (auto simp: bit_simps bit_0 even_bit_succ_iff)

lemma or1_and_1: "((x :: 64 word) OR 1) AND 1 = 1"
  by (rule bit_word_eqI) (auto simp: bit_simps bit_0)

lemma even_and_m2: "even ((x :: 64 word) AND (- 2))"
  by (simp add: even_and_iff)

lemma and_m2_even: "even (x :: 64 word) \<Longrightarrow> x AND (- 2) = x"
  by (rule bit_word_eqI) (auto simp: bit_simps bit_0)

lemma even_get_size: "even (get_size s b)"
  by (simp add: get_size_def even_and_iff)

subsection \<open>List segments\<close>

lemma flist_seg_frame:
  "(\<forall>x\<in>set xs. m' (x + 8) = m (x + 8)) \<Longrightarrow> flist_seg m' h xs t = flist_seg m h xs t"
  by (induction xs arbitrary: h) simp_all

lemma prev_links_frame:
  "(\<forall>x\<in>set xs. m' (x + 16) = m (x + 16)) \<Longrightarrow> prev_links m' p xs = prev_links m p xs"
  by (induction xs arbitrary: p) simp_all

lemma flist_seg_append:
  "flist_seg m h (ys @ zs) t = (\<exists>u. flist_seg m h ys u \<and> flist_seg m u zs t)"
  by (induction ys arbitrary: h) auto

lemma prev_links_append:
  "prev_links m p (ys @ zs)
     = (prev_links m p ys \<and> prev_links m (if ys = [] then p else last ys) zs)"
  by (induction ys arbitrary: p) auto

lemma flist_seg_nonzero: "flist_seg m h xs t \<Longrightarrow> 0 \<notin> set xs"
  by (induction xs arbitrary: h) auto

lemma flist_seg_head: "flist_seg m h xs t \<Longrightarrow> h = (if xs = [] then t else hd xs)"
  by (cases xs) auto

text \<open>Redirecting the \<open>next\<close> link of the last node of a segment.\<close>

lemma flist_seg_redirect:
  assumes "flist_seg m h ys b" and "distinct ys"
    and "\<forall>x\<in>set ys. m' (x + 8) = (if x = last ys then t else m (x + 8))"
  shows "flist_seg m' (if ys = [] then t else h) ys t"
  using assms
proof (induction ys arbitrary: h)
  case Nil
  then show ?case by simp
next
  case (Cons y ys)
  show ?case
  proof (cases "ys = []")
    case True
    with Cons.prems show ?thesis by simp
  next
    case False
    from Cons.prems have h: "h = y" "y \<noteq> 0" and seg: "flist_seg m (m (y + 8)) ys b"
      and d: "distinct ys" "y \<notin> set ys" by simp_all
    from False d have yl: "y \<noteq> last ys" by (metis last_in_set)
    from Cons.prems(3) False
    have fr: "\<forall>x\<in>set ys. m' (x + 8) = (if x = last ys then t else m (x + 8))" by simp
    from Cons.prems(3) False yl have my: "m' (y + 8) = m (y + 8)" by simp
    from Cons.IH [OF seg d(1) fr] False
    have "flist_seg m' (m (y + 8)) ys t" by simp
    with h my False show ?thesis by simp
  qed
qed

text \<open>Resetting the \<open>prev\<close> link of the first node of a list.\<close>

lemma prev_links_redirect:
  assumes "prev_links m b zs" and "distinct zs"
    and "\<forall>x\<in>set zs. m' (x + 16) = (if x = hd zs then p else m (x + 16))"
  shows "prev_links m' p zs"
proof (cases zs)
  case Nil
  then show ?thesis by simp
next
  case (Cons z zs')
  with assms have "\<forall>x\<in>set zs'. m' (x + 16) = m (x + 16)" by auto
  from prev_links_frame [OF this] assms Cons show ?thesis by simp
qed

subsection \<open>Removal and insertion\<close>

lemma remove_from_free_list_globals:
  "heap (remove_from_free_list b s) = heap s"
  "heap_end (remove_from_free_list b s) = heap_end s"
  "first (remove_from_free_list b s) = first s"
  "last_blk (remove_from_free_list b s) = last_blk s"
  by (simp_all add: remove_from_free_list_def set_used_def store_def Let_def)

lemma remove_from_free_list_effect:
  assumes nn: "mem s (b + 8) = nn" and pp: "mem s (b + 16) = pp"
    and fb: "b + get_size s b + 8 = fb"
    and H1: "nn \<noteq> 0 \<Longrightarrow> b + 16 \<noteq> nn + 16 \<and> b + 8 \<noteq> nn + 16 \<and> b \<noteq> nn + 16 \<and> fb \<noteq> nn + 16"
    and H2: "pp \<noteq> 0 \<Longrightarrow> b + 8 \<noteq> pp + 8 \<and> b \<noteq> pp + 8 \<and> fb \<noteq> pp + 8"
    and H3: "fb \<noteq> b"
  shows "free_list (remove_from_free_list b s) = (if b = free_list s then nn else free_list s)"
    and "mem (remove_from_free_list b s) c =
      (if c = fb then mem s fb AND (- 2)
       else if c = b then mem s b AND (- 2)
       else if pp \<noteq> 0 \<and> c = pp + 8 then nn
       else if nn \<noteq> 0 \<and> c = nn + 16 then pp
       else mem s c)"
proof -
  define s1 where "s1 = (if mem s (b + 8) \<noteq> 0
      then store (mem s (b + 8) + 16) (mem s (b + 16)) s else s)"
  define s2 where "s2 = (if mem s1 (b + 16) \<noteq> 0
      then store (mem s1 (b + 16) + 8) (mem s1 (b + 8)) s1 else s1)"
  define s3 where "s3 = (if b = free_list s2 then s2\<lparr>free_list := mem s2 (b + 8)\<rparr> else s2)"
  define s4 where "s4 = set_used b s3"
  have fin: "remove_from_free_list b s = set_used (get_footer_from_header s4 b) s4"
    by (simp add: remove_from_free_list_def Let_def s1_def s2_def s3_def s4_def)
  have m1: "mem s1 = (if nn \<noteq> 0 then (mem s)(nn + 16 := pp) else mem s)"
    and f1: "free_list s1 = free_list s"
    by (simp_all add: s1_def store_def nn pp)
  have r1: "mem s1 (b + 16) = pp" "mem s1 (b + 8) = nn" "mem s1 b = mem s b"
    "mem s1 fb = mem s fb"
    using H1 by (simp_all add: m1 nn pp)
  have m2: "mem s2 = (if pp \<noteq> 0 then (mem s1)(pp + 8 := nn) else mem s1)"
    and f2: "free_list s2 = free_list s"
    by (simp_all add: s2_def store_def r1 f1)
  have r2: "mem s2 (b + 8) = nn" "mem s2 b = mem s b" "mem s2 fb = mem s fb"
    using H2 by (simp_all add: m2 r1)
  have m3: "mem s3 = mem s2"
    and f3: "free_list s3 = (if b = free_list s then nn else free_list s)"
    using r2 by (auto simp: s3_def f2)
  have m4: "mem s4 = (mem s2)(b := mem s b AND (- 2))" and f4: "free_list s4 = free_list s3"
    by (simp_all add: s4_def set_used_def store_def m3 r2)
  have "get_size s4 b = get_size s b"
    by (simp add: get_size_def m4 and.assoc)
  then have g4: "get_footer_from_header s4 b = fb"
    by (simp add: get_footer_from_header_def fb)
  have r4: "mem s4 fb = mem s fb" using H3 by (simp add: m4 r2)
  show "free_list (remove_from_free_list b s) = (if b = free_list s then nn else free_list s)"
    by (simp add: fin set_used_def store_def f4 f3)
  have "mem (remove_from_free_list b s)
      = (mem s2)(b := mem s b AND (- 2), fb := mem s fb AND (- 2))"
    using H3 by (simp add: fin g4 set_used_def store_def m4 r2)
  then show "mem (remove_from_free_list b s) c =
      (if c = fb then mem s fb AND (- 2)
       else if c = b then mem s b AND (- 2)
       else if pp \<noteq> 0 \<and> c = pp + 8 then nn
       else if nn \<noteq> 0 \<and> c = nn + 16 then pp
       else mem s c)"
    by (simp add: m2 m1)
qed

lemma remove_free_blocks:
  assumes fbk: "free_blocks s xs" and d: "distinct xs" and ap: "blocks_apart s us"
    and sub: "set xs \<subseteq> set us" and b: "b \<in> set xs"
  shows "free_blocks (remove_from_free_list b s) (remove1 b xs)"
    and "\<forall>u\<in>set us. mem (remove_from_free_list b s) u
           = (if u = b then mem s b AND (- 2) else mem s u)"
proof -
  from b obtain ys zs where xs: "xs = ys @ b # zs" by (meson split_list)
  with d have nb: "b \<notin> set ys" "b \<notin> set zs" "distinct ys" "distinct zs"
    "set ys \<inter> set zs = {}" by auto
  define nn where "nn = mem s (b + 8)"
  define pp where "pp = mem s (b + 16)"
  define fb where "fb = b + get_size s b + 8"
  define s' where "s' = remove_from_free_list b s"
  from fbk xs have seg: "flist_seg (mem s) (free_list s) ys b" "flist_seg (mem s) nn zs 0"
    and pl: "prev_links (mem s) 0 ys" "pp = (if ys = [] then 0 else last ys)"
      "prev_links (mem s) b zs"
    by (auto simp: free_blocks_def flist_seg_append prev_links_append nn_def pp_def)
  have nz: "0 \<notin> set xs" using ap sub by (auto simp: blocks_apart_def blk_ok_def)
  have nn_cases: "nn = (if zs = [] then 0 else hd zs)"
    using flist_seg_head [OF seg(2)] by simp
  have nn_in: "nn \<noteq> 0 \<Longrightarrow> nn \<in> set zs" using nn_cases by (auto split: if_splits)
  have pp_in: "pp \<noteq> 0 \<Longrightarrow> pp \<in> set ys" using pl(2) by (auto split: if_splits)
  have pp_nz: "ys \<noteq> [] \<Longrightarrow> pp \<noteq> 0"
    using pl(2) nz xs by (metis Un_iff last_in_set set_append)
  have inus: "b \<in> set us" "\<And>x. x \<in> set ys \<Longrightarrow> x \<in> set us"
    "\<And>x. x \<in> set zs \<Longrightarrow> x \<in> set us"
    using sub xs by auto
  note ac = apart_cells [OF ap]
  have H1: "nn \<noteq> 0 \<Longrightarrow>
      b + 16 \<noteq> nn + 16 \<and> b + 8 \<noteq> nn + 16 \<and> b \<noteq> nn + 16 \<and> fb \<noteq> nn + 16"
  proof -
    assume "nn \<noteq> 0"
    then have i: "nn \<in> set zs" by (rule nn_in)
    with nb have "b \<noteq> nn" by auto
    moreover from ac(1) [OF inus(1) inus(3) [OF i]] have "b + 8 \<noteq> nn + 16" .
    moreover from ac(3) [OF inus(3) [OF i] inus(1)] have "b \<noteq> nn + 16" by metis
    moreover from ac(6) [OF inus(1) inus(3) [OF i]] have "fb \<noteq> nn + 16" by (simp add: fb_def)
    ultimately show ?thesis by simp
  qed
  have H2: "pp \<noteq> 0 \<Longrightarrow> b + 8 \<noteq> pp + 8 \<and> b \<noteq> pp + 8 \<and> fb \<noteq> pp + 8"
  proof -
    assume "pp \<noteq> 0"
    then have i: "pp \<in> set ys" by (rule pp_in)
    with nb have "b \<noteq> pp" by auto
    moreover from ac(2) [OF inus(2) [OF i] inus(1)] have "b \<noteq> pp + 8" by metis
    moreover from ac(5) [OF inus(1) inus(2) [OF i]] have "fb \<noteq> pp + 8" by (simp add: fb_def)
    ultimately show ?thesis by simp
  qed
  have H3: "fb \<noteq> b" using ac(4) [OF inus(1) inus(1)] by (simp add: fb_def)
  note eff = remove_from_free_list_effect [of s b nn pp fb, OF nn_def [symmetric]
      pp_def [symmetric] fb_def [symmetric] H1 H2 H3]
  have memu: "mem s' u = (if u = b then mem s b AND (- 2) else mem s u)"
    if u: "u \<in> set us" for u
  proof -
    from ac(4) [OF inus(1) u] have 1: "u \<noteq> fb" by (auto simp: fb_def)
    have 2: "pp \<noteq> 0 \<Longrightarrow> u \<noteq> pp + 8"
      using ac(2) [OF inus(2) [OF pp_in] u] by metis
    have 3: "nn \<noteq> 0 \<Longrightarrow> u \<noteq> nn + 16"
      using ac(3) [OF inus(3) [OF nn_in] u] by metis
    from 1 2 3 eff(2) [where c = u] show ?thesis by (auto simp: s'_def)
  qed
  then show "\<forall>u\<in>set us. mem (remove_from_free_list b s) u
           = (if u = b then mem s b AND (- 2) else mem s u)"
    by (simp add: s'_def)
  have next_cell: "mem s' (x + 8) = (if pp \<noteq> 0 \<and> x = pp then nn else mem s (x + 8))"
    if x: "x \<in> set us" for x
  proof -
    from ac(5) [OF inus(1) x] have 1: "x + 8 \<noteq> fb" by (auto simp: fb_def)
    from ac(2) [OF x inus(1)] have 2: "x + 8 \<noteq> b" .
    have 3: "nn \<noteq> 0 \<Longrightarrow> x + 8 \<noteq> nn + 16"
      using ac(1) [OF x inus(3) [OF nn_in]] by metis
    from 1 2 3 eff(2) [where c = "x + 8"] show ?thesis by (auto simp: s'_def)
  qed
  have prev_cell: "mem s' (x + 16) = (if nn \<noteq> 0 \<and> x = nn then pp else mem s (x + 16))"
    if x: "x \<in> set us" for x
  proof -
    from ac(6) [OF inus(1) x] have 1: "x + 16 \<noteq> fb" by (auto simp: fb_def)
    from ac(3) [OF x inus(1)] have 2: "x + 16 \<noteq> b" .
    have 3: "pp \<noteq> 0 \<Longrightarrow> x + 16 \<noteq> pp + 8"
      using ac(1) [OF inus(2) [OF pp_in] x] by metis
    from 1 2 3 eff(2) [where c = "x + 16"] show ?thesis by (auto simp: s'_def)
  qed
  have fl': "free_list s' = (if ys = [] then nn else free_list s)"
  proof (cases "ys = []")
    case True
    with seg(1) have "free_list s = b" by simp
    with True show ?thesis by (simp add: s'_def eff(1))
  next
    case False
    with flist_seg_head [OF seg(1)] have "free_list s = hd ys" by simp
    with False nb have "free_list s \<noteq> b" by (metis hd_in_set)
    with False show ?thesis by (simp add: s'_def eff(1))
  qed
  have ys_next: "\<forall>x\<in>set ys. mem s' (x + 8) = (if x = last ys then nn else mem s (x + 8))"
  proof
    fix x assume x: "x \<in> set ys"
    then have "ys \<noteq> []" by auto
    with pl(2) pp_nz have "pp = last ys" "pp \<noteq> 0" by auto
    with next_cell [OF inus(2) [OF x]]
    show "mem s' (x + 8) = (if x = last ys then nn else mem s (x + 8))" by simp
  qed
  have zs_next: "\<forall>x\<in>set zs. mem s' (x + 8) = mem s (x + 8)"
  proof
    fix x assume x: "x \<in> set zs"
    have "pp \<noteq> 0 \<Longrightarrow> x \<noteq> pp" using pp_in x nb(5) by auto
    with next_cell [OF inus(3) [OF x]] show "mem s' (x + 8) = mem s (x + 8)" by auto
  qed
  have ys_prev: "\<forall>x\<in>set ys. mem s' (x + 16) = mem s (x + 16)"
  proof
    fix x assume x: "x \<in> set ys"
    have "nn \<noteq> 0 \<Longrightarrow> x \<noteq> nn" using nn_in x nb(5) by auto
    with prev_cell [OF inus(2) [OF x]] show "mem s' (x + 16) = mem s (x + 16)" by auto
  qed
  have zs_prev: "\<forall>x\<in>set zs. mem s' (x + 16) = (if x = hd zs then pp else mem s (x + 16))"
  proof
    fix x assume x: "x \<in> set zs"
    then have "zs \<noteq> []" by auto
    with nn_cases have n: "nn = hd zs" by simp
    with \<open>zs \<noteq> []\<close> nz xs have "nn \<noteq> 0" by (metis Un_iff hd_in_set list.set_intros(2) set_append)
    with n prev_cell [OF inus(3) [OF x]]
    show "mem s' (x + 16) = (if x = hd zs then pp else mem s (x + 16))" by simp
  qed
  from flist_seg_redirect [OF seg(1) nb(3) ys_next] fl'
  have A: "flist_seg (mem s') (free_list s') ys nn" by simp
  from seg(2) flist_seg_frame [OF zs_next] have B: "flist_seg (mem s') nn zs 0" by simp
  from pl(1) prev_links_frame [OF ys_prev] have C: "prev_links (mem s') 0 ys" by simp
  from prev_links_redirect [OF pl(3) nb(4) zs_prev] have D: "prev_links (mem s') pp zs" .
  from nb have "remove1 b xs = ys @ zs" by (simp add: xs remove1_append)
  with A B C D pl(2) show "free_blocks (remove_from_free_list b s) (remove1 b xs)"
    by (auto simp: free_blocks_def flist_seg_append prev_links_append s'_def)
qed

lemma add_to_free_list_globals:
  "heap (add_to_free_list b s) = heap s"
  "heap_end (add_to_free_list b s) = heap_end s"
  "first (add_to_free_list b s) = first s"
  "last_blk (add_to_free_list b s) = last_blk s"
  "free_list (add_to_free_list b s) = b"
  by (simp_all add: add_to_free_list_def set_free_def store_def Let_def)

lemma add_to_free_list_effect:
  assumes fb: "b + get_size s b + 8 = fb" and h: "free_list s = h"
    and H1: "h \<noteq> 0 \<Longrightarrow> b \<noteq> h + 16 \<and> fb \<noteq> h + 16"
    and H2: "fb \<noteq> b \<and> fb \<noteq> b + 8 \<and> fb \<noteq> b + 16"
  shows "mem (add_to_free_list b s) c =
      (if c = fb then mem s fb OR 1
       else if c = b then mem s b OR 1
       else if h \<noteq> 0 \<and> c = h + 16 then b
       else if c = b + 16 then 0
       else if c = b + 8 then h
       else mem s c)"
proof -
  define s1 where "s1 = store (b + 8) (free_list s) s"
  define s2 where "s2 = store (b + 16) 0 s1"
  define s3 where "s3 = (if free_list s2 \<noteq> 0 then store (free_list s2 + 16) b s2 else s2)"
  define s4 where "s4 = s3\<lparr>free_list := b\<rparr>"
  define s5 where "s5 = set_free b s4"
  have fin: "add_to_free_list b s = set_free (get_footer_from_header s5 b) s5"
    by (simp add: add_to_free_list_def Let_def s1_def s2_def s3_def s4_def s5_def)
  have m2: "mem s2 = (mem s)(b + 8 := h, b + 16 := 0)" and f2: "free_list s2 = h"
    by (simp_all add: s2_def s1_def store_def h)
  have m4: "mem s4 = (if h \<noteq> 0 then (mem s2)(h + 16 := b) else mem s2)"
    by (simp add: s4_def s3_def store_def f2)
  have r4: "mem s4 b = mem s b" "mem s4 fb = mem s fb"
    using H1 H2 by (simp_all add: m4 m2)
  have m5: "mem s5 = (mem s4)(b := mem s b OR 1)"
    by (simp add: s5_def set_free_def store_def r4)
  have "get_size s5 b = get_size s b"
    by (simp add: get_size_def m5 or1_and_m2)
  then have g5: "get_footer_from_header s5 b = fb"
    by (simp add: get_footer_from_header_def fb)
  have "mem (add_to_free_list b s) = (mem s4)(b := mem s b OR 1, fb := mem s fb OR 1)"
    using H2 by (simp add: fin g5 set_free_def store_def m5 r4)
  then show ?thesis by (simp add: m4 m2)
qed

lemma blocks_apart_cong:
  assumes "\<forall>u\<in>set us. get_size s' u = get_size s u"
  shows "blocks_apart s' us = blocks_apart s us"
  using assms by (simp add: blocks_apart_def blk_ok_def blk_end_def disjoint_blks_def)

lemma get_size_flag: "get_size (s\<lparr>mem := (mem s)(b := mem s b AND (- 2))\<rparr>) b = get_size s b"
  by (simp add: get_size_def and.assoc)

subsection \<open>The three-way merge\<close>

text \<open>The release of a block between two free neighbours, on a heap in order: the free
  list is \<open>xs\<close>, its blocks are marked free, they and the released block \<open>m\<close> are sound
  and apart, the left neighbour \<open>P\<close> ends where \<open>m\<close> starts and its footer word is a copy
  of its header word, and \<open>m\<close> ends where the right neighbour \<open>N\<close> starts.  Then both
  neighbours leave the free list, the merged block \<open>P\<close> enters it at the head with the
  three usable sizes plus 32 as its size, marked free in its header and in the footer
  that was the footer of \<open>N\<close>, and \<open>last\<close> moves to \<open>P\<close> if it was \<open>N\<close>.\<close>

lemma Free_both_merge:
  assumes fbk: "free_blocks s xs" and d: "distinct xs"
    and ap: "blocks_apart s (m # xs)"
    and fr: "\<forall>x\<in>set xs. is_free s x"
    and p: "p \<noteq> 0" "head_addr p = m" "m \<noteq> first s" "m \<noteq> last_blk s"
    and P: "P \<in> set xs" and N: "N \<in> set xs"
    and adjP: "blk_end s P = unat m" and foot: "mem s (m - 8) = mem s P"
    and adjN: "blk_end s m = unat N"
  shows "free_blocks (Free p s) (P # remove1 P (remove1 N xs))
       \<and> last_blk (Free p s) = (if N = last_blk s then P else last_blk s)
       \<and> get_size (Free p s) P = get_size s P + get_size s m + get_size s N + 32
       \<and> is_free (Free p s) P
       \<and> get_footer_from_header (Free p s) P = get_footer_from_header s N
       \<and> mem (Free p s) (get_footer_from_header (Free p s) P) = mem (Free p s) P"
proof -
  let ?us = "m # xs"
  define S where "S = get_size s P + get_size s m + get_size s N + 32"
  define fbP where "fbP = N + get_size s N + 8"
  note ac = apart_cells [OF ap]
  have inus: "m \<in> set ?us" "P \<in> set ?us" "N \<in> set ?us" "\<And>x. x \<in> set xs \<Longrightarrow> x \<in> set ?us"
    using P N by auto
  from ap have okm: "blk_ok s m" and okP: "blk_ok s P" and okN: "blk_ok s N"
    using P N by (auto simp: blocks_apart_def)
  \<comment> \<open>the three blocks are adjacent\<close>
  have mP: "m = P + get_size s P + 16"
  proof -
    from adjP have "unat m = unat (P + get_size s P + 16)"
      by (simp add: blk_ok_offsets [OF okP] blk_end_def)
    then show ?thesis by (simp only: word_unat_eq_iff)
  qed
  have Nm: "N = m + get_size s m + 16"
  proof -
    from adjN have "unat N = unat (m + get_size s m + 16)"
      by (simp add: blk_ok_offsets [OF okm] blk_end_def)
    then show ?thesis by (simp only: word_unat_eq_iff)
  qed
  have PN: "P \<noteq> N" "m \<noteq> P" "m \<noteq> N"
    using adjP adjN okm okP by (auto simp: blk_end_def blk_ok_def)
  have fbP_eq: "fbP = P + S + 8"
    by (simp add: fbP_def S_def Nm mP)
  \<comment> \<open>the branch taken\<close>
  have "get_size s (m - 8) = get_size s P"
    by (simp add: get_size_def foot)
  then have "get_header_from_footer s (m - 8) = m - 8 - get_size s P - 8"
    by (simp add: get_header_from_footer_def)
  also have "\<dots> = P" by (simp add: mP)
  finally have prevb: "get_header_from_footer s (m - 8) = P" .
  have nextb: "m + 8 + get_size s m + 8 = N"
    by (simp add: Nm)
  from okP okN have nzP: "P \<noteq> 0" and nzN: "N \<noteq> 0" by (simp_all add: blk_ok_def)
  from fr P N have frP: "is_free s P" and frN: "is_free s N" by auto
  have branch: "Free p s = Free_both m P N s"
    using p nzP nzN frP frN by (simp add: Free_def Let_def prevb nextb)
  \<comment> \<open>the two removals\<close>
  define s1 where "s1 = remove_from_free_list N s"
  define s2 where "s2 = remove_from_free_list P s1"
  define xs2 where "xs2 = remove1 P (remove1 N xs)"
  have sub: "set xs \<subseteq> set ?us" by auto
  from remove_free_blocks [OF fbk d ap sub N]
  have fb1: "free_blocks s1 (remove1 N xs)"
    and m1: "\<forall>u\<in>set ?us. mem s1 u = (if u = N then mem s N AND (- 2) else mem s u)"
    by (simp_all add: s1_def)
  have gs1: "\<forall>u\<in>set ?us. get_size s1 u = get_size s u"
    using m1 by (auto simp: get_size_def and.assoc)
  have ap1: "blocks_apart s1 ?us" using blocks_apart_cong [OF gs1] ap by simp
  have d1: "distinct (remove1 N xs)" using d by simp
  have sub1: "set (remove1 N xs) \<subseteq> set ?us" using set_remove1_subset [of N xs] by auto
  have P1: "P \<in> set (remove1 N xs)" using P PN by simp
  from remove_free_blocks [OF fb1 d1 ap1 sub1 P1]
  have fb2: "free_blocks s2 xs2"
    and m2: "\<forall>u\<in>set ?us. mem s2 u = (if u = P then mem s1 P AND (- 2) else mem s1 u)"
    by (simp_all add: s2_def xs2_def)
  have gs2: "\<forall>u\<in>set ?us. get_size s2 u = get_size s u"
    using m2 gs1 by (auto simp: get_size_def and.assoc)
  have l2: "last_blk s2 = last_blk s"
    by (simp add: s2_def s1_def remove_from_free_list_globals)
  have x2: "x \<in> set xs \<and> x \<noteq> P \<and> x \<noteq> N" if "x \<in> set xs2" for x
    using that d by (auto simp: xs2_def)
  \<comment> \<open>the merged header and footer\<close>
  define s3 where "s3 = (if N = last_blk s2 then s2\<lparr>last_blk := P\<rparr> else s2)"
  have m3: "mem s3 = mem s2" and f3: "free_list s3 = free_list s2"
    and l3: "last_blk s3 = (if N = last_blk s then P else last_blk s)"
    by (simp_all add: s3_def l2)
  have gs3: "get_size s3 P = get_size s P" "get_size s3 m = get_size s m"
    "get_size s3 N = get_size s N"
    using gs2 P N by (auto simp: get_size_def m3)
  have usable: "get_size s3 P + get_size s3 m + get_size s3 N + 3 * 8 + 3 * 8 - 8 - 8 = S"
    by (simp add: gs3 S_def)
  have evS: "even S" by (simp add: S_def even_get_size)
  then have sizeS: "(S OR 1) AND (- 2) = S" by (simp add: or1_and_m2 and_m2_even)
  from ac(4) [OF inus(3) inus(2)] have fP: "fbP \<noteq> P" by (simp add: fbP_def)
  from ac(5) [OF inus(3) inus(2)] have fP8: "fbP \<noteq> P + 8" by (simp add: fbP_def)
  from ac(6) [OF inus(3) inus(2)] have fP16: "fbP \<noteq> P + 16" by (simp add: fbP_def)
  define s4 where "s4 = store P S s3"
  define s5 where "s5 = set_free P s4"
  define s6 where "s6 = store (get_footer_from_header s5 P) S s5"
  define s7 where "s7 = set_free (get_footer_from_header s6 P) s6"
  have both: "Free_both m P N s = add_to_free_list P s7"
    unfolding Free_both_def Let_def usable s1_def [symmetric] s2_def [symmetric]
      s3_def [symmetric] s4_def [symmetric] s5_def [symmetric] s6_def [symmetric]
      s7_def [symmetric] ..
  have m5: "mem s5 = (mem s2)(P := S OR 1)"
    by (simp add: s5_def s4_def set_free_def store_def m3)
  have g5: "get_footer_from_header s5 P = fbP"
    by (simp add: get_footer_from_header_def get_size_def m5 sizeS fbP_eq)
  have m6: "mem s6 = (mem s2)(P := S OR 1, fbP := S)"
    by (simp add: s6_def g5 store_def m5)
  have g6: "get_footer_from_header s6 P = fbP"
    using fP by (simp add: get_footer_from_header_def get_size_def m6 sizeS fbP_eq)
  have m7: "mem s7 = (mem s2)(P := S OR 1, fbP := S OR 1)"
    by (simp add: s7_def g6 set_free_def store_def m6)
  have f7: "free_list s7 = free_list s2" and l7: "last_blk s7 = last_blk s3"
    by (simp_all add: s7_def s6_def s5_def s4_def set_free_def store_def f3)
  have g7: "P + get_size s7 P + 8 = fbP"
    using fP by (simp add: get_size_def m7 sizeS fbP_eq)
  \<comment> \<open>the insertion\<close>
  define h where "h = free_list s2"
  from fb2 have seg2: "flist_seg (mem s2) h xs2 0" and pl2: "prev_links (mem s2) 0 xs2"
    by (simp_all add: free_blocks_def h_def)
  have hcases: "h = (if xs2 = [] then 0 else hd xs2)"
    using flist_seg_head [OF seg2] .
  have hin: "h \<in> set xs2" if "h \<noteq> 0"
    using that hcases by (auto split: if_splits)
  have hnz: "h \<noteq> 0" if "xs2 \<noteq> []"
    using that hcases flist_seg_nonzero [OF seg2] by (metis hd_in_set)
  have H1: "h \<noteq> 0 \<Longrightarrow> P \<noteq> h + 16 \<and> fbP \<noteq> h + 16"
  proof -
    assume "h \<noteq> 0"
    from x2 [OF hin [OF this]] have i: "h \<in> set ?us" by simp
    from ac(3) [OF i inus(2)] have "P \<noteq> h + 16" by metis
    moreover from ac(6) [OF inus(3) i] have "fbP \<noteq> h + 16" by (simp add: fbP_def)
    ultimately show ?thesis by simp
  qed
  define s8 where "s8 = add_to_free_list P s7"
  have m8: "mem s8 c =
      (if c = fbP then (S OR 1) OR 1
       else if c = P then (S OR 1) OR 1
       else if h \<noteq> 0 \<and> c = h + 16 then P
       else if c = P + 16 then 0
       else if c = P + 8 then h
       else mem s2 c)" for c
    using add_to_free_list_effect [of P s7 fbP h c, OF g7 _ H1] fP fP8 fP16
    by (auto simp: s8_def f7 h_def m7)
  have f8: "free_list s8 = P" and l8: "last_blk s8 = last_blk s3"
    by (simp_all add: s8_def add_to_free_list_globals l7)
  have next8: "mem s8 (x + 8) = mem s2 (x + 8)" if "x \<in> set xs2" for x
  proof -
    from x2 [OF that] have i: "x \<in> set ?us" and ne: "x \<noteq> P" by simp_all
    from ac(5) [OF inus(3) i] have 1: "x + 8 \<noteq> fbP" by (auto simp: fbP_def)
    from ac(2) [OF i inus(2)] have 2: "x + 8 \<noteq> P" .
    from ac(1) [OF i inus(2)] have 3: "x + 8 \<noteq> P + 16" .
    have 4: "h \<noteq> 0 \<Longrightarrow> x + 8 \<noteq> h + 16"
      using ac(1) [OF i] x2 [OF hin] by (metis inus(4))
    from ne have 5: "x + 8 \<noteq> P + 8" by simp
    from 1 2 3 4 5 m8 [of "x + 8"] show ?thesis by auto
  qed
  have prev8: "mem s8 (x + 16) = (if x = hd xs2 then P else mem s2 (x + 16))"
    if "x \<in> set xs2" for x
  proof -
    from x2 [OF that] have i: "x \<in> set ?us" and ne: "x \<noteq> P" by simp_all
    from that have "xs2 \<noteq> []" by auto
    with hcases hnz have hh: "h = hd xs2" "h \<noteq> 0" by simp_all
    from ac(6) [OF inus(3) i] have 1: "x + 16 \<noteq> fbP" by (auto simp: fbP_def)
    from ac(3) [OF i inus(2)] have 2: "x + 16 \<noteq> P" .
    from ac(1) [OF inus(2) i] have 3: "x + 16 \<noteq> P + 8" by metis
    from ne have 5: "x + 16 \<noteq> P + 16" by simp
    from 1 2 3 5 hh m8 [of "x + 16"] show ?thesis by auto
  qed
  have nextP: "mem s8 (P + 8) = h"
  proof -
    have "h \<noteq> 0 \<Longrightarrow> P + 8 \<noteq> h + 16"
      using ac(1) [OF inus(2)] x2 [OF hin] by (metis inus(4))
    with fP8 m8 [of "P + 8"] show ?thesis by auto
  qed
  have prevP: "mem s8 (P + 16) = 0"
  proof -
    have "h \<noteq> 0 \<Longrightarrow> P + 16 \<noteq> h + 16"
      using x2 [OF hin] by auto
    with fP16 m8 [of "P + 16"] show ?thesis by auto
  qed
  have d2: "distinct xs2" using d by (simp add: xs2_def)
  from seg2 flist_seg_frame [of xs2 "mem s8" "mem s2" h 0] next8
  have A: "flist_seg (mem s8) h xs2 0" by simp
  from prev_links_redirect [OF pl2 d2, of "mem s8" P] prev8
  have B: "prev_links (mem s8) P xs2" by simp
  from A B nextP prevP nzP f8 have list8: "free_blocks s8 (P # xs2)"
    by (simp add: free_blocks_def)
  have hdr8: "mem s8 P = S OR 1" using fP m8 [of P] by simp
  have ftr8: "mem s8 fbP = S OR 1" using m8 [of fbP] by simp
  have gsz8: "get_size s8 P = S" by (simp add: get_size_def hdr8 sizeS)
  have free8: "is_free s8 P"
    by (simp add: is_free_def hdr8 or1_and_1)
  have gf8: "get_footer_from_header s8 P = fbP"
    by (simp add: get_footer_from_header_def gsz8 fbP_eq)
  have final: "Free p s = s8" by (simp add: branch both s8_def)
  have "get_footer_from_header s N = fbP"
    by (simp only: fbP_def get_footer_from_header_def)
  with gf8 have c5: "get_footer_from_header s8 P = get_footer_from_header s N"
    by simp
  have c6: "mem s8 (get_footer_from_header s8 P) = mem s8 P"
    by (simp only: gf8 ftr8 hdr8)
  have c3: "get_size s8 P = get_size s P + get_size s m + get_size s N + 32"
    by (simp only: gsz8 S_def)
  have c2: "last_blk s8 = (if N = last_blk s then P else last_blk s)"
    by (simp only: l8 l3)
  have c1: "free_blocks s8 (P # remove1 P (remove1 N xs))"
    using list8 by (simp only: xs2_def)
  from c1 c2 c3 free8 c5 c6 show ?thesis
    unfolding final by blast
qed

text \<open>Such a heap is reached from a fresh process: four blocks are carved, the second
  and then the first are released (which merges them and writes the footer of the
  merged block), then the fourth.  Releasing the third block merges all four.\<close>

lemma Free_both_merge_example:
  "\<exists>s. run [Allocate 16, Allocate 16, Allocate 16, Allocate 16, Release 1, Release 0,
            Release 3] [] (fresh 4096 always_grant) = Some ([4104, 4136, 4168, 4200], s)
       \<and> free_blocks s [4192, 4096] \<and> get_size s 4096 = 48 \<and> get_size s 4160 = 16
       \<and> get_size s 4192 = 16 \<and> last_blk s = 4192
       \<and> free_blocks (Free 4168 s) [4096] \<and> last_blk (Free 4168 s) = 4096
       \<and> get_size (Free 4168 s) 4096 = 112 \<and> is_free (Free 4168 s) 4096
       \<and> get_footer_from_header (Free 4168 s) 4096 = 4216
       \<and> mem (Free 4168 s) 4216 = mem (Free 4168 s) 4096"
proof -
  let ?s = "one_page 4192 4192
       ((\<lambda>_. 0)(4120 := 0, 4160 := 16, 4184 := 0, 4136 := 0, 4144 := 0, 4128 := 16,
          4104 := 0, 4096 := 49, 4152 := 49, 4200 := 4096, 4208 := 0, 4112 := 4192,
          4192 := 17, 4216 := 1))"
  have run: "run [Allocate 16, Allocate 16, Allocate 16, Allocate 16, Release 1, Release 0,
            Release 3] [] (fresh 4096 always_grant) = Some ([4104, 4136, 4168, 4200], ?s)"
    by (simp add: trace_16_alloc trace_pair_alloc trace_triple_alloc trace_quad_alloc
          trace_quad_release_second trace_quad_release_first trace_quad_release_fourth)
  have sz: "get_size ?s 4096 = 48" "get_size ?s 4160 = 16" "get_size ?s 4192 = 16"
    "last_blk ?s = 4192" "first ?s = 4096" "get_footer_from_header ?s 4192 = 4216"
    by (simp_all add: one_page_def get_size_def get_footer_from_header_def)
  have h1: "free_blocks ?s [4192, 4096]"
    by (simp add: free_blocks_def one_page_def)
  have h2: "distinct [4192, 4096 :: addr]" by simp
  have h3: "blocks_apart ?s [4160, 4192, 4096]"
    by (simp add: blocks_apart_def blk_ok_def blk_end_def disjoint_blks_def sz)
  have h4: "\<forall>x\<in>set [4192, 4096]. is_free ?s x"
    by (simp add: is_free_def one_page_def)
  have h5: "(4168 :: addr) \<noteq> 0" "head_addr 4168 = 4160" "4160 \<noteq> first ?s"
    "4160 \<noteq> last_blk ?s"
    by (simp_all add: head_addr_def sz)
  have h6: "4096 \<in> set [4192, 4096 :: addr]" "4192 \<in> set [4192, 4096 :: addr]" by simp_all
  have h7: "blk_end ?s 4096 = unat (4160 :: addr)" "blk_end ?s 4160 = unat (4192 :: addr)"
    by (simp_all add: blk_end_def sz)
  have h8: "mem ?s (4160 - 8) = mem ?s 4096" by (simp add: one_page_def)
  note X = Free_both_merge [OF h1 h2 h3 h4 h5 h6 h7(1) h8 h7(2)]
  from X have X1: "free_blocks (Free 4168 ?s) (4096 # remove1 4096 (remove1 4192 [4192, 4096]))"
    by (rule conjunct1)
  then have Y1: "free_blocks (Free 4168 ?s) [4096]" by simp
  from X have X2: "last_blk (Free 4168 ?s) = (if 4192 = last_blk ?s then 4096 else last_blk ?s)"
    by blast
  then have Y2: "last_blk (Free 4168 ?s) = 4096" by (simp add: sz)
  from X have X3: "get_size (Free 4168 ?s) 4096
      = get_size ?s 4096 + get_size ?s 4160 + get_size ?s 4192 + 32"
    by blast
  then have Y3: "get_size (Free 4168 ?s) 4096 = 112" by (simp add: sz)
  from X have Y4: "is_free (Free 4168 ?s) 4096" by blast
  from X have X5: "get_footer_from_header (Free 4168 ?s) 4096 = get_footer_from_header ?s 4192"
    by blast
  then have Y5: "get_footer_from_header (Free 4168 ?s) 4096 = 4216" by (simp add: sz)
  from X have "mem (Free 4168 ?s) (get_footer_from_header (Free 4168 ?s) 4096)
      = mem (Free 4168 ?s) 4096"
    by blast
  then have Y6: "mem (Free 4168 ?s) 4216 = mem (Free 4168 ?s) 4096" by (simp only: Y5)
  from run h1 sz Y1 Y2 Y3 Y4 Y5 Y6 show ?thesis by blast
qed

section \<open>Coalescing from a fresh process\<close>

text \<open>C5, at the input where the code departs from it.  A block carved from the heap
  tail and released on its own has a footer word that holds the flag but not the size.
  Three blocks of usable size
  16 are carved at 4096, 4128 and 4160; the left one and the right one are released.
  Then the middle block has a left and a right heap neighbour, both free.  Releasing it
  merges it with the right neighbour only: the free-list head is the middle block 4128
  with usable size 48 = 16 + 16 + 16, \<open>last\<close> is 4128, and the left neighbour 4096 keeps
  its header and is still linked, as the second entry of the free list.\<close>

theorem left_neighbour_not_merged:
  "\<exists>s. run [Allocate 16, Allocate 16, Allocate 16, Release 0, Release 2] []
           (fresh 4096 always_grant) = Some ([4104, 4136, 4168], s)
       \<and> first s = 4096 \<and> last_blk s = 4160
       \<and> 4096 + 8 + get_size s 4096 + 8 = 4128 \<and> is_free s 4096
       \<and> 4128 + 8 + get_size s 4128 + 8 = 4160 \<and> is_free s 4160
       \<and> free_list (Free 4136 s) = 4128 \<and> get_size (Free 4136 s) 4128 = 48
       \<and> last_blk (Free 4136 s) = 4128
       \<and> mem (Free 4136 s) 4096 = 17 \<and> mem (Free 4136 s) (4128 + 8) = 4096"
  by (simp add: trace_16_alloc trace_pair_alloc trace_triple_alloc
        trace_triple_release_left trace_triple_release_right trace_triple_release_middle)
     (simp add: one_page_def is_free_def get_size_def)

text \<open>C6, at the input where the code departs from it.  Two blocks of usable size 16
  are carved at 4096 and 4128, then both are released, the left one first.  Afterwards
  \<open>first\<close> is 4096, \<open>last\<close> is 4128, the block after 4096 is 4128, and both are marked
  free.\<close>

theorem adjacent_free_blocks:
  "\<exists>s. run [Allocate 16, Allocate 16, Release 0, Release 1] [] (fresh 4096 always_grant)
         = Some ([4104, 4136], s)
       \<and> first s = 4096 \<and> last_blk s = 4128
       \<and> 4096 + 8 + get_size s 4096 + 8 = 4128
       \<and> is_free s 4096 \<and> is_free s 4128"
  by (simp add: trace_16_alloc trace_pair_alloc trace_pair_release_left
        trace_pair_release_right)
     (simp add: one_page_def is_free_def get_size_def)

section \<open>Bootstrap\<close>

text \<open>C7 as stated fails: the operating system refuses the first extension request
  (the one of the bootstrap) and grants the second; the first allocation fails, the
  second one returns the payload address 4104.\<close>

theorem refused_bootstrap_is_retried:
  "\<not> refuse_first 0
   \<and> map_option fst (run [Allocate 16, Allocate 16] [] (fresh 4096 refuse_first))
       = Some [0, 4104]"
  by (simp add: trace_refused trace_refused_retry) (simp add: refuse_first_def)

text \<open>C7 as amended: when the heap is not initialised and the operating system refuses
  the extension request of the bootstrap, \<^verbatim>\<open>Malloc\<close> returns the null pointer and
  leaves \<open>heap\<close> and \<open>heap_end\<close> at the unset marker; nothing else changes but the count
  of requests made.  The state is again one that is not initialised, so the next call
  repeats the bootstrap.\<close>

theorem Malloc_bootstrap_refused:
  assumes "heap s = - 1" and "\<not> sbrk_ok s (sbrk_calls s)"
  shows "Malloc sz s
         = Some (0, s\<lparr>heap := - 1, heap_end := - 1, sbrk_calls := Suc (sbrk_calls s)\<rparr>)"
  using assms by (simp add: Malloc_def init_def sbrk_def INIIAL_HEAP_SIZE_def)

theorem Malloc_bootstrap_refused_witness:
  "heap (fresh 4096 refuse_first) = - 1
   \<and> \<not> sbrk_ok (fresh 4096 refuse_first) (sbrk_calls (fresh 4096 refuse_first))
   \<and> Malloc 16 (fresh 4096 refuse_first)
       = Some (0, (fresh 4096 refuse_first)
                    \<lparr>heap := - 1, heap_end := - 1,
                       sbrk_calls := Suc (sbrk_calls (fresh 4096 refuse_first))\<rparr>)"
  using Malloc_bootstrap_refused [of "fresh 4096 refuse_first" 16]
  by (simp add: fresh_def refuse_first_def)

section \<open>The heap markers in an allocation\<close>

lemma Malloc_hit_markers:
  "first (snd (Malloc_hit m sz s)) = first s \<and> last_blk (snd (Malloc_hit m sz s)) = last_blk s
   \<and> heap (snd (Malloc_hit m sz s)) = heap s \<and> heap_end (snd (Malloc_hit m sz s)) = heap_end s"
  by (simp add: Malloc_hit_def add_to_free_list_def set_free_def set_used_def store_def Let_def)

lemma Malloc_search_hit_aux:
  assumes "Malloc_search sz m s = Some y"
  shows "\<forall>r. y = Some r \<longrightarrow> (\<exists>b. r = Malloc_hit b sz s)"
proof (rule Malloc_search.raw_induct
    [where P = "\<lambda>sz m s y. \<forall>r. y = Some r \<longrightarrow> (\<exists>b. r = Malloc_hit b sz s)",
     OF _ assms])
  fix f :: "64 word \<Rightarrow> addr \<Rightarrow> state \<Rightarrow> (addr \<times> state) option option"
  fix sz m s y
  assume IH: "\<And>sz m s y. f sz m s = Some y \<Longrightarrow>
      \<forall>r. y = Some r \<longrightarrow> (\<exists>b. r = Malloc_hit b sz s)"
  assume step: "(if m \<noteq> 0 then if sz \<le> get_size s m then Some (Some (Malloc_hit m sz s))
       else f sz (mem s (m + 8)) s else Some None) = Some y"
  show "\<forall>r. y = Some r \<longrightarrow> (\<exists>b. r = Malloc_hit b sz s)"
  proof (cases "m \<noteq> 0 \<and> \<not> sz \<le> get_size s m")
    case True
    with step have "f sz (mem s (m + 8)) s = Some y" by simp
    from IH [OF this] show ?thesis .
  next
    case False
    with step have "y = Some (Malloc_hit m sz s) \<or> y = None"
      by (auto split: if_splits)
    then show ?thesis by blast
  qed
qed

lemma Malloc_search_hit:
  assumes "Malloc_search sz m s = Some (Some r)"
  shows "\<exists>b. r = Malloc_hit b sz s"
  using Malloc_search_hit_aux [OF assms] by simp

lemma Sbrk_markers:
  "first (snd (Sbrk s)) = first s \<and> last_blk (snd (Sbrk s)) = last_blk s
   \<and> heap (snd (Sbrk s)) = heap s \<and> free_list (snd (Sbrk s)) = free_list s
   \<and> mem (snd (Sbrk s)) = mem s"
  by (simp add: Sbrk_def sbrk_def ALLOC_SIZE_def)

lemma Malloc_grow_markers_aux:
  assumes "Malloc_grow nb sz s = Some y"
  shows "first (snd y) = first s \<and> last_blk (snd y) = last_blk s
        \<and> heap (snd y) = heap s \<and> free_list (snd y) = free_list s \<and> mem (snd y) = mem s"
proof (rule Malloc_grow.raw_induct
    [where P = "\<lambda>nb sz s y. first (snd y) = first s \<and> last_blk (snd y) = last_blk s
        \<and> heap (snd y) = heap s \<and> free_list (snd y) = free_list s \<and> mem (snd y) = mem s",
     OF _ assms])
  fix f :: "addr \<Rightarrow> 64 word \<Rightarrow> state \<Rightarrow> (bool \<times> state) option"
  fix nb sz s y
  assume IH: "\<And>nb sz s y. f nb sz s = Some y \<Longrightarrow>
      first (snd y) = first s \<and> last_blk (snd y) = last_blk s
        \<and> heap (snd y) = heap s \<and> free_list (snd y) = free_list s \<and> mem (snd y) = mem s"
  assume step: "(if heap_end s < nb + 8 + sz + 8
      then case Sbrk s of (r, s1) \<Rightarrow> if r = 1 then Some (False, s1) else f nb sz s1
      else Some (True, s)) = Some y"
  show "first (snd y) = first s \<and> last_blk (snd y) = last_blk s
        \<and> heap (snd y) = heap s \<and> free_list (snd y) = free_list s \<and> mem (snd y) = mem s"
  proof (cases "heap_end s < nb + 8 + sz + 8")
    case False
    with step show ?thesis by auto
  next
    case True
    obtain r s1 where S: "Sbrk s = (r, s1)" by (cases "Sbrk s")
    with Sbrk_markers [of s] have fr: "first s1 = first s \<and> last_blk s1 = last_blk s
       \<and> heap s1 = heap s \<and> free_list s1 = free_list s \<and> mem s1 = mem s" by simp
    show ?thesis
    proof (cases "r = 1")
      case True
      with step S \<open>heap_end s < nb + 8 + sz + 8\<close> fr show ?thesis by auto
    next
      case False
      with step S \<open>heap_end s < nb + 8 + sz + 8\<close> have "f nb sz s1 = Some y" by simp
      from IH [OF this] fr show ?thesis by simp
    qed
  qed
qed

lemma Malloc_grow_markers:
  assumes "Malloc_grow nb sz s = Some (ok, s1)"
  shows "first s1 = first s \<and> last_blk s1 = last_blk s \<and> heap s1 = heap s
         \<and> free_list s1 = free_list s \<and> mem s1 = mem s"
  using Malloc_grow_markers_aux [OF assms] by simp

lemma Malloc_carve_markers:
  "last_blk (snd (Malloc_carve nb sz s)) = nb
   \<and> first (snd (Malloc_carve nb sz s)) = (if first s = 0 then nb else first s)
   \<and> heap (snd (Malloc_carve nb sz s)) = heap s
   \<and> heap_end (snd (Malloc_carve nb sz s)) = heap_end s"
  by (simp add: Malloc_carve_def set_used_def store_def Let_def)


text \<open>The markers in a call that finds the heap initialised.\<close>

lemma Malloc_markers_initialised:
  assumes "heap s \<noteq> - 1" and "heap_end s \<noteq> - 1"
  shows "(\<forall>p s'. Malloc_search (Malloc_size sz) (free_list s) s = Some (Some (p, s')) \<longrightarrow>
            Malloc sz s = Some (p, s')
            \<and> first s' = first s \<and> last_blk s' = last_blk s
            \<and> heap s' = heap s \<and> heap_end s' = heap_end s)
       \<and> (\<forall>ok s1. Malloc_search (Malloc_size sz) (free_list s) s = Some None
              \<and> Malloc_grow (next_available_block s) (Malloc_size sz) s = Some (ok, s1) \<longrightarrow>
            (\<exists>p s'. Malloc sz s = Some (p, s') \<and> heap s' = heap s
               \<and> (if ok
                   then last_blk s' = next_available_block s
                      \<and> first s' = (if first s = 0 then next_available_block s else first s)
                   else p = 0 \<and> last_blk s' = last_blk s \<and> first s' = first s)))"
proof (intro conjI allI impI)
  fix p s'
  assume hit: "Malloc_search (Malloc_size sz) (free_list s) s = Some (Some (p, s'))"
  from Malloc_search_hit [OF hit] obtain b where "(p, s') = Malloc_hit b (Malloc_size sz) s" ..
  then have s': "s' = snd (Malloc_hit b (Malloc_size sz) s)" by (metis snd_conv)
  from assms hit show "Malloc sz s = Some (p, s')" by (simp add: Malloc_def)
  from Malloc_hit_markers [of b "Malloc_size sz" s] s'
  show "first s' = first s" "last_blk s' = last_blk s" "heap s' = heap s"
    "heap_end s' = heap_end s" by simp_all
next
  fix ok s1
  assume h: "Malloc_search (Malloc_size sz) (free_list s) s = Some None
      \<and> Malloc_grow (next_available_block s) (Malloc_size sz) s = Some (ok, s1)"
  from Malloc_grow_markers [of "next_available_block s" "Malloc_size sz" s ok s1] h
  have fr: "first s1 = first s \<and> last_blk s1 = last_blk s \<and> heap s1 = heap s" by simp
  show "\<exists>p s'. Malloc sz s = Some (p, s') \<and> heap s' = heap s
               \<and> (if ok
                   then last_blk s' = next_available_block s
                      \<and> first s' = (if first s = 0 then next_available_block s else first s)
                   else p = 0 \<and> last_blk s' = last_blk s \<and> first s' = first s)"
  proof (cases ok)
    case True
    with assms h have "Malloc sz s
        = Some (Malloc_carve (next_available_block s) (Malloc_size sz) s1)"
      by (simp add: Malloc_def)
    with True fr Malloc_carve_markers [of "next_available_block s" "Malloc_size sz" s1]
    show ?thesis by (cases "Malloc_carve (next_available_block s) (Malloc_size sz) s1") auto
  next
    case False
    with assms h have "Malloc sz s = Some (0, s1)" by (simp add: Malloc_def)
    with False fr show ?thesis by simp
  qed
qed

lemma init_markers:
  "first (init s) = first s \<and> last_blk (init s) = last_blk s
   \<and> free_list (init s) = free_list s \<and> mem (init s) = mem s"
  by (simp add: init_def sbrk_def INIIAL_HEAP_SIZE_def)

lemma Malloc_after_bootstrap:
  assumes "s = (if heap s0 = - 1 then init s0 else s0)" and "heap s \<noteq> - 1"
  shows "Malloc sz s0 = Malloc sz s"
  using assms by (simp add: Malloc_def Let_def)


text \<open>C10, for every call of \<^verbatim>\<open>Malloc\<close>, the bootstrapping ones included.  Let \<open>s\<close> be
  the state after the bootstrap step of the call (lines 137 to 139): \<open>init s0\<close> when
  \<open>heap\<close> was unset, \<open>s0\<close> itself otherwise.  The bootstrap step leaves \<open>first\<close> and \<open>last\<close>
  as they were, and the heap bounds too when the heap was already initialised.  If the
  bootstrap failed, the call returns the null pointer in state \<open>s\<close>.  Otherwise: an
  allocation that the free-list search satisfies returns with \<open>first\<close> and \<open>last\<close> as
  they were on entry and with \<open>heap\<close> and \<open>heap_end\<close> as in \<open>s\<close>; when the search finds
  nothing and the growth loop ends normally, the block is carved at the next available
  address, which becomes \<open>last\<close>, and becomes \<open>first\<close> exactly when \<open>first\<close> was unset on
  entry; when the loop ends on a refusal, the null pointer is returned and \<open>first\<close> and
  \<open>last\<close> are as they were on entry.\<close>

theorem Malloc_first_last:
  assumes s: "s = (if heap s0 = - 1 then init s0 else s0)"
  shows "first s = first s0 \<and> last_blk s = last_blk s0
       \<and> (heap s0 \<noteq> - 1 \<longrightarrow> heap s = heap s0 \<and> heap_end s = heap_end s0)
       \<and> (heap s = - 1 \<or> heap_end s = - 1 \<longrightarrow> Malloc sz s0 = Some (0, s))
       \<and> (heap s \<noteq> - 1 \<and> heap_end s \<noteq> - 1 \<longrightarrow>
            (\<forall>p s'. Malloc_search (Malloc_size sz) (free_list s) s = Some (Some (p, s')) \<longrightarrow>
               Malloc sz s0 = Some (p, s')
               \<and> first s' = first s0 \<and> last_blk s' = last_blk s0
               \<and> heap s' = heap s \<and> heap_end s' = heap_end s)
          \<and> (\<forall>ok s1. Malloc_search (Malloc_size sz) (free_list s) s = Some None
                 \<and> Malloc_grow (next_available_block s) (Malloc_size sz) s = Some (ok, s1) \<longrightarrow>
               (\<exists>p s'. Malloc sz s0 = Some (p, s') \<and> heap s' = heap s
                  \<and> (if ok
                      then last_blk s' = next_available_block s
                         \<and> first s' = (if first s0 = 0 then next_available_block s
                                        else first s0)
                      else p = 0 \<and> last_blk s' = last_blk s0 \<and> first s' = first s0))))"
proof -
  have fl: "first s = first s0" "last_blk s = last_blk s0"
    using s init_markers [of s0] by (simp_all split: if_splits)
  have same: "heap s0 \<noteq> - 1 \<longrightarrow> heap s = heap s0 \<and> heap_end s = heap_end s0"
    using s by simp
  have null: "heap s = - 1 \<or> heap_end s = - 1 \<longrightarrow> Malloc sz s0 = Some (0, s)"
    using s by (simp add: Malloc_def Let_def)
  have rest: "(\<forall>p s'. Malloc_search (Malloc_size sz) (free_list s) s = Some (Some (p, s')) \<longrightarrow>
               Malloc sz s0 = Some (p, s')
               \<and> first s' = first s0 \<and> last_blk s' = last_blk s0
               \<and> heap s' = heap s \<and> heap_end s' = heap_end s)
          \<and> (\<forall>ok s1. Malloc_search (Malloc_size sz) (free_list s) s = Some None
                 \<and> Malloc_grow (next_available_block s) (Malloc_size sz) s = Some (ok, s1) \<longrightarrow>
               (\<exists>p s'. Malloc sz s0 = Some (p, s') \<and> heap s' = heap s
                  \<and> (if ok
                      then last_blk s' = next_available_block s
                         \<and> first s' = (if first s0 = 0 then next_available_block s
                                        else first s0)
                      else p = 0 \<and> last_blk s' = last_blk s0 \<and> first s' = first s0)))"
    if h: "heap s \<noteq> - 1" "heap_end s \<noteq> - 1"
    using Malloc_markers_initialised [OF h, of sz] Malloc_after_bootstrap [OF s h(1), of sz]
    by (simp only: fl)
  from fl same null rest show ?thesis by blast
qed

theorem Malloc_first_last_witness:
  "\<lparr>heap = 4096, heap_end = 5120, last_blk = 0, first = 0, free_list = 0,
      mem = (\<lambda>_. 0), brk = 5120, sbrk_ok = always_grant, sbrk_calls = Suc 0\<rparr>
     = (if heap (fresh 4096 always_grant) = - 1 then init (fresh 4096 always_grant)
        else fresh 4096 always_grant)
   \<and> first (fresh 4096 always_grant) = 0
   \<and> Malloc_search (Malloc_size 16) 0
        \<lparr>heap = 4096, heap_end = 5120, last_blk = 0, first = 0, free_list = 0,
           mem = (\<lambda>_. 0), brk = 5120, sbrk_ok = always_grant, sbrk_calls = Suc 0\<rparr>
       = Some None
   \<and> Malloc_grow 4096 (Malloc_size 16)
        \<lparr>heap = 4096, heap_end = 5120, last_blk = 0, first = 0, free_list = 0,
           mem = (\<lambda>_. 0), brk = 5120, sbrk_ok = always_grant, sbrk_calls = Suc 0\<rparr>
       = Some (True,
        \<lparr>heap = 4096, heap_end = 5120, last_blk = 0, first = 0, free_list = 0,
           mem = (\<lambda>_. 0), brk = 5120, sbrk_ok = always_grant, sbrk_calls = Suc 0\<rparr>)
   \<and> (\<exists>p s'. Malloc 16 (fresh 4096 always_grant) = Some (p, s')
          \<and> heap s' = 4096 \<and> last_blk s' = 4096 \<and> first s' = 4096)
   \<and> heap (one_page 4096 4096 ((\<lambda>_. 0)(4104 := 0, 4112 := 0, 4096 := 17, 4120 := 1))) \<noteq> - 1
   \<and> (\<exists>s'. Malloc_search (Malloc_size 16) 4096
               (one_page 4096 4096 ((\<lambda>_. 0)(4104 := 0, 4112 := 0, 4096 := 17, 4120 := 1)))
             = Some (Some (4104, s'))
          \<and> Malloc 16
               (one_page 4096 4096 ((\<lambda>_. 0)(4104 := 0, 4112 := 0, 4096 := 17, 4120 := 1)))
             = Some (4104, s')
          \<and> first s' = 4096 \<and> last_blk s' = 4096 \<and> heap s' = 4096 \<and> heap_end s' = 5120)
   \<and> Malloc_search (Malloc_size 16) 0 (one_page 4096 0 ((\<lambda>_. 0)(4096 := 16, 4120 := 0)))
        = Some None
   \<and> Malloc_grow 4128 (Malloc_size 16) (one_page 4096 0 ((\<lambda>_. 0)(4096 := 16, 4120 := 0)))
        = Some (True, one_page 4096 0 ((\<lambda>_. 0)(4096 := 16, 4120 := 0)))
   \<and> (\<exists>p s'. Malloc 16 (one_page 4096 0 ((\<lambda>_. 0)(4096 := 16, 4120 := 0))) = Some (p, s')
          \<and> heap s' = 4096 \<and> last_blk s' = 4128 \<and> first s' = 4096)
   \<and> heap (init (fresh 4096 refuse_first)) = - 1
   \<and> Malloc 16 (fresh 4096 refuse_first) = Some (0, init (fresh 4096 refuse_first))"
proof -
  let ?f = "fresh 4096 always_grant"
  let ?b = "\<lparr>heap = 4096, heap_end = 5120, last_blk = 0, first = 0, free_list = 0,
      mem = (\<lambda>_. 0), brk = 5120, sbrk_ok = always_grant, sbrk_calls = Suc 0\<rparr>"
  let ?h = "one_page 4096 4096 ((\<lambda>_. 0)(4104 := 0, 4112 := 0, 4096 := 17, 4120 := 1))"
  let ?h' = "one_page 4096 4096 ((\<lambda>_. 0)(4104 := 0, 4112 := 0, 4096 := 16, 4120 := 0))"
  let ?c = "one_page 4096 0 ((\<lambda>_. 0)(4096 := 16, 4120 := 0))"
  let ?r = "fresh 4096 refuse_first"
  \<comment> \<open>the bootstrapping call that carves the very first block\<close>
  have b0: "?b = (if heap ?f = - 1 then init ?f else ?f)"
    by (simp add: fresh_def init_def sbrk_def INIIAL_HEAP_SIZE_def always_grant_def)
  have bf: "first ?f = 0" "heap ?b \<noteq> - 1" "heap_end ?b \<noteq> - 1" "free_list ?b = 0"
    "next_available_block ?b = 4096" "heap ?b = 4096"
    by (simp_all add: fresh_def next_available_block_def)
  have bmiss: "Malloc_search (Malloc_size 16) (free_list ?b) ?b = Some None"
    by (simp add: Malloc_search.simps)
  have bgrow: "Malloc_grow (next_available_block ?b) (Malloc_size 16) ?b = Some (True, ?b)"
    by (simp add: alloc_defs Malloc_grow.simps)
  from Malloc_first_last [OF b0, of 16] bf(2,3) bmiss bgrow
  have "\<exists>p s'. Malloc 16 ?f = Some (p, s') \<and> heap s' = heap ?b
      \<and> (if True then last_blk s' = next_available_block ?b
            \<and> first s' = (if first ?f = 0 then next_available_block ?b else first ?f)
          else p = 0 \<and> last_blk s' = last_blk ?f \<and> first s' = first ?f)" by blast
  then have B: "\<exists>p s'. Malloc 16 ?f = Some (p, s')
      \<and> heap s' = 4096 \<and> last_blk s' = 4096 \<and> first s' = 4096"
    by (simp add: bf)
  \<comment> \<open>a free-list hit\<close>
  have h0: "?h = (if heap ?h = - 1 then init ?h else ?h)" by (simp add: one_page_def)
  have hf: "heap ?h \<noteq> - 1" "heap_end ?h \<noteq> - 1" "free_list ?h = 4096" "first ?h = 4096"
    "last_blk ?h = 4096" "heap ?h = 4096" "heap_end ?h = 5120"
    by (simp_all add: one_page_def)
  have hit: "Malloc_search (Malloc_size 16) (free_list ?h) ?h = Some (Some (4104, ?h'))"
    by (simp add: alloc_defs one_page_def Let_def Malloc_search.simps cong: let_weak_cong)
  from Malloc_first_last [OF h0, of 16] hf(1,2) hit
  have "Malloc 16 ?h = Some (4104, ?h') \<and> first ?h' = first ?h \<and> last_blk ?h' = last_blk ?h
      \<and> heap ?h' = heap ?h \<and> heap_end ?h' = heap_end ?h" by blast
  with hit have H: "\<exists>s'. Malloc_search (Malloc_size 16) 4096 ?h = Some (Some (4104, s'))
      \<and> Malloc 16 ?h = Some (4104, s')
      \<and> first s' = 4096 \<and> last_blk s' = 4096 \<and> heap s' = 4096 \<and> heap_end s' = 5120"
    by (simp add: hf)
  \<comment> \<open>the carve of a second block\<close>
  have c0: "?c = (if heap ?c = - 1 then init ?c else ?c)" by (simp add: one_page_def)
  have cf: "heap ?c \<noteq> - 1" "heap_end ?c \<noteq> - 1" "free_list ?c = 0" "first ?c = 4096"
    "heap ?c = 4096" "next_available_block ?c = 4128"
    by (simp_all add: one_page_def next_available_block_def get_size_def)
  have cmiss: "Malloc_search (Malloc_size 16) (free_list ?c) ?c = Some None"
    by (simp add: one_page_def Malloc_search.simps)
  have cgrow: "Malloc_grow (next_available_block ?c) (Malloc_size 16) ?c = Some (True, ?c)"
    by (simp add: alloc_defs one_page_def Malloc_grow.simps)
  from Malloc_first_last [OF c0, of 16] cf(1,2) cmiss cgrow
  have "\<exists>p s'. Malloc 16 ?c = Some (p, s') \<and> heap s' = heap ?c
      \<and> (if True then last_blk s' = next_available_block ?c
            \<and> first s' = (if first ?c = 0 then next_available_block ?c else first ?c)
          else p = 0 \<and> last_blk s' = last_blk ?c \<and> first s' = first ?c)" by blast
  then have C: "\<exists>p s'. Malloc 16 ?c = Some (p, s')
      \<and> heap s' = 4096 \<and> last_blk s' = 4128 \<and> first s' = 4096"
    by (simp add: cf)
  \<comment> \<open>a refused bootstrap\<close>
  have r0: "init ?r = (if heap ?r = - 1 then init ?r else ?r)" by (simp add: fresh_def)
  have rf: "heap (init ?r) = - 1"
    by (simp add: fresh_def init_def sbrk_def INIIAL_HEAP_SIZE_def refuse_first_def)
  from Malloc_first_last [OF r0, of 16] rf
  have R: "Malloc 16 ?r = Some (0, init ?r)" by blast
  have bmiss': "Malloc_search (Malloc_size 16) 0 ?b = Some None"
    using bmiss by (simp only: bf(4))
  have bgrow': "Malloc_grow 4096 (Malloc_size 16) ?b = Some (True, ?b)"
    using bgrow by (simp only: bf(5))
  have cmiss': "Malloc_search (Malloc_size 16) 0 ?c = Some None"
    using cmiss by (simp only: cf(3))
  have cgrow': "Malloc_grow 4128 (Malloc_size 16) ?c = Some (True, ?c)"
    using cgrow by (simp only: cf(6))
  from b0 bf(1) bmiss' bgrow' B hf(1) H cmiss' cgrow' C rf R show ?thesis
    by (intro conjI)
qed

section \<open>The determinism scenario\<close>

text \<open>C9, at the input where the code departs from it: the second loop of \<^verbatim>\<open>main\<close>
  from a fresh process.  The round for \<open>i = 2\<close> returns the same pointer twice and leaves
  a free list whose only entry links to itself; the first allocation of the round for
  \<open>i = 3\<close> then never returns.\<close>

theorem determinism_scenario_hangs:
  "(\<exists>s. run [Allocate 16, Release 0, Allocate 16, Release 1] [] (fresh 4096 always_grant)
          = Some ([4104, 4104], s)
        \<and> mem s (free_list s + 8) = free_list s)
   \<and> run [Allocate 16, Release 0, Allocate 16, Release 1, Allocate 24] []
        (fresh 4096 always_grant) = None"
  by (simp add: trace_16_alloc trace_16_release trace_16_realloc trace_16_rerelease
        trace_24_hangs)
     (simp add: one_page_def)

end
